theory Spec2Isabelle
  imports Main
begin

section \<open>ColorBuffer::Helper: the context capability\<close>

text \<open>
  \<^verbatim>\<open>ColorBuffer::Helper\<close> is an abstract class with four pure virtual member functions.
  A pointer to a helper is an address or \<^verbatim>\<open>NULL\<close> (\<open>None\<close>). The objects live in a store
  indexed by address; the state of an object has an arbitrary type \<open>'h\<close>, and the virtual
  functions are the fields of a method table, so that any concrete provider is covered.
  Every virtual call is recorded in the order it is made.
\<close>

type_synonym addr = nat

datatype call =
    Call_setupContext
  | Call_teardownContext
  | Call_getTextureDraw
  | Call_isBound

record 'h Helper =
  setupContext :: "'h \<Rightarrow> bool \<times> 'h"
  teardownContext :: "'h \<Rightarrow> 'h"
  getTextureDraw :: "'h \<Rightarrow> addr option"
  isBound :: "'h \<Rightarrow> bool"

record 'h world =
  objs :: "addr \<Rightarrow> 'h"
  calls :: "(addr \<times> call) list"

text \<open>
  Calling a member function through a null pointer is an error of the model, and so is a
  call that breaks the contract of an operation on its arguments.
\<close>

datatype error = NullDeref | ContractViolation

definition call_isBound ::
  "'h Helper \<Rightarrow> addr option \<Rightarrow> 'h world \<Rightarrow> error + (bool \<times> 'h world)" where
  "call_isBound H p w =
     (case p of
        None \<Rightarrow> Inl NullDeref
      | Some a \<Rightarrow> Inr (isBound H (objs w a), w\<lparr>calls := calls w @ [(a, Call_isBound)]\<rparr>))"

definition call_setupContext ::
  "'h Helper \<Rightarrow> addr option \<Rightarrow> 'h world \<Rightarrow> error + (bool \<times> 'h world)" where
  "call_setupContext H p w =
     (case p of
        None \<Rightarrow> Inl NullDeref
      | Some a \<Rightarrow>
          Inr (fst (setupContext H (objs w a)),
               w\<lparr>objs := (objs w)(a := snd (setupContext H (objs w a))),
                 calls := calls w @ [(a, Call_setupContext)]\<rparr>))"

definition call_teardownContext ::
  "'h Helper \<Rightarrow> addr option \<Rightarrow> 'h world \<Rightarrow> error + 'h world" where
  "call_teardownContext H p w =
     (case p of
        None \<Rightarrow> Inl NullDeref
      | Some a \<Rightarrow>
          Inr (w\<lparr>objs := (objs w)(a := teardownContext H (objs w a)),
                 calls := calls w @ [(a, Call_teardownContext)]\<rparr>))"

definition call_getTextureDraw ::
  "'h Helper \<Rightarrow> addr option \<Rightarrow> 'h world \<Rightarrow> error + (addr option \<times> 'h world)" where
  "call_getTextureDraw H p w =
     (case p of
        None \<Rightarrow> Inl NullDeref
      | Some a \<Rightarrow>
          Inr (getTextureDraw H (objs w a), w\<lparr>calls := calls w @ [(a, Call_getTextureDraw)]\<rparr>))"

section \<open>ColorBuffer::RecursiveScopedHelperContext\<close>

text \<open>
  The two data members: \<^verbatim>\<open>ColorBuffer::Helper* mHelper\<close> and
  \<^verbatim>\<open>bool mNeedUnbind = false\<close>.
\<close>

record RecursiveScopedHelperContext =
  mHelper :: "addr option"
  mNeedUnbind :: bool

text \<open>
  The constructor: \<^verbatim>\<open>mHelper(helper)\<close>, then
  \<^verbatim>\<open>if (helper->isBound()) return;\<close>
  \<^verbatim>\<open>if (!helper->setupContext()) { mHelper = NULL; return; }\<close>
  \<^verbatim>\<open>mNeedUnbind = true;\<close>
\<close>

definition RecursiveScopedHelperContext_new ::
  "'h Helper \<Rightarrow> addr option \<Rightarrow> 'h world \<Rightarrow>
     error + (RecursiveScopedHelperContext \<times> 'h world)" where
  "RecursiveScopedHelperContext_new H helper w =
     (case call_isBound H helper w of
        Inl e \<Rightarrow> Inl e
      | Inr (bound, w1) \<Rightarrow>
          if bound then Inr (\<lparr>mHelper = helper, mNeedUnbind = False\<rparr>, w1)
          else
            (case call_setupContext H helper w1 of
               Inl e \<Rightarrow> Inl e
             | Inr (ok, w2) \<Rightarrow>
                 if \<not> ok then Inr (\<lparr>mHelper = None, mNeedUnbind = False\<rparr>, w2)
                 else Inr (\<lparr>mHelper = helper, mNeedUnbind = True\<rparr>, w2)))"

text \<open>\<^verbatim>\<open>bool isOk() const { return mHelper != NULL; }\<close>\<close>

definition isOk :: "RecursiveScopedHelperContext \<Rightarrow> bool" where
  "isOk g = (mHelper g \<noteq> None)"

text \<open>
  \<^verbatim>\<open>void release() { if (mNeedUnbind) { mHelper->teardownContext(); mNeedUnbind = false; }\<close>
  \<^verbatim>\<open>mHelper = NULL; }\<close>
\<close>

definition release ::
  "'h Helper \<Rightarrow> RecursiveScopedHelperContext \<Rightarrow> 'h world \<Rightarrow>
     error + (RecursiveScopedHelperContext \<times> 'h world)" where
  "release H g w =
     (if mNeedUnbind g then
        (case call_teardownContext H (mHelper g) w of
           Inl e \<Rightarrow> Inl e
         | Inr w1 \<Rightarrow> Inr (g\<lparr>mNeedUnbind := False, mHelper := None\<rparr>, w1))
      else Inr (g\<lparr>mHelper := None\<rparr>, w))"

text \<open>The destructor: \<^verbatim>\<open>~RecursiveScopedHelperContext() { release(); }\<close>\<close>

definition RecursiveScopedHelperContext_delete ::
  "'h Helper \<Rightarrow> RecursiveScopedHelperContext \<Rightarrow> 'h world \<Rightarrow>
     error + (RecursiveScopedHelperContext \<times> 'h world)" where
  "RecursiveScopedHelperContext_delete H g w = release H g w"

subsection \<open>Uses of a guard\<close>

text \<open>\<open>release_n H n\<close> is \<open>n\<close> explicit calls of \<^verbatim>\<open>release()\<close> in a row.\<close>

fun release_n ::
  "'h Helper \<Rightarrow> nat \<Rightarrow> RecursiveScopedHelperContext \<Rightarrow> 'h world \<Rightarrow>
     error + (RecursiveScopedHelperContext \<times> 'h world)" where
  "release_n H 0 g w = Inr (g, w)"
| "release_n H (Suc n) g w =
     (case release H g w of
        Inl e \<Rightarrow> Inl e
      | Inr (g1, w1) \<Rightarrow> release_n H n g1 w1)"

text \<open>
  The life of one guard: construction from \<open>helper\<close>, \<open>n\<close> explicit releases, then the
  destructor at scope exit.
\<close>

definition guard_lifetime ::
  "'h Helper \<Rightarrow> addr option \<Rightarrow> nat \<Rightarrow> 'h world \<Rightarrow>
     error + (RecursiveScopedHelperContext \<times> 'h world)" where
  "guard_lifetime H helper n w =
     (case RecursiveScopedHelperContext_new H helper w of
        Inl e \<Rightarrow> Inl e
      | Inr (g, w1) \<Rightarrow>
          (case release_n H n g w1 of
             Inl e \<Rightarrow> Inl e
           | Inr (g2, w2) \<Rightarrow> RecursiveScopedHelperContext_delete H g2 w2))"

text \<open>The calls made since the trace had length \<open>k\<close>, and how many of them are \<open>c\<close>.\<close>

definition calls_since :: "nat \<Rightarrow> 'h world \<Rightarrow> (addr \<times> call) list" where
  "calls_since k w = drop k (calls w)"

definition count_call :: "call \<Rightarrow> (addr \<times> call) list \<Rightarrow> nat" where
  "count_call c tr = length (filter (\<lambda>ac. snd ac = c) tr)"

section \<open>ColorBuffer\<close>

subsection \<open>The data members and the inline accessors\<close>

text \<open>
  \<^verbatim>\<open>GLuint\<close> and \<^verbatim>\<open>GLenum\<close> are unsigned 32-bit integers; no arithmetic that could
  wrap is done on them here, so they are natural numbers. A GL name \<open>0\<close> and a null
  pointer (\<open>None\<close>) mean that the object does not exist.
\<close>

type_synonym GLuint = nat
type_synonym GLenum = nat

text \<open>
  Modelled from the spec: the header \<^verbatim>\<open>FrameworkFormats.h\<close> is missing. The spec has the
  GL-compatible layout and a family of YUV layouts; the header's comment names
  \<^verbatim>\<open>FRAMEWORK_FORMAT_GL_COMPATIBLE\<close>.
\<close>

datatype FrameworkFormat =
    FRAMEWORK_FORMAT_GL_COMPATIBLE
  | FRAMEWORK_FORMAT_YUV nat

text \<open>The private data members of \<^verbatim>\<open>class ColorBuffer\<close>, in the order of the header.\<close>

record ColorBuffer =
  m_tex :: GLuint
  m_blitTex :: GLuint
  m_eglImage :: "nat option"
  m_blitEGLImage :: "nat option"
  m_width :: GLuint
  m_height :: GLuint
  m_fbo :: GLuint
  m_internalFormat :: GLenum
  m_display :: "nat option"
  m_helper :: "addr option"
  m_resizer :: "nat option"
  m_frameworkFormat :: FrameworkFormat
  m_yuv_conversion_fbo :: GLuint
  m_yuv_converter :: "nat option"
  mHndl :: nat

text \<open>\<^verbatim>\<open>GLuint getWidth() const { return m_width; }\<close>\<close>

definition getWidth :: "ColorBuffer \<Rightarrow> GLuint" where
  "getWidth cb = m_width cb"

text \<open>\<^verbatim>\<open>GLuint getHeight() const { return m_height; }\<close>\<close>

definition getHeight :: "ColorBuffer \<Rightarrow> GLuint" where
  "getHeight cb = m_height cb"

subsection \<open>The graphics driver and the collaborators\<close>

text \<open>
  Modelled from the spec: the graphics driver, the YUV converter and the texture resizer
  are external collaborators of which no code is given. The spec describes what the
  Color Buffer asks of them; what they answer is a parameter (record \<open>Driver\<close>), and
  the state they keep is the record \<open>gpu\<close>: the trace of the requests made, the next
  unused object name, the texels of every texture, and the read surface of the current
  context (if any). A texel, and a pixel of a host buffer, is a value of the arbitrary
  type \<open>'px\<close>.
\<close>

text \<open>
  Modelled from the spec: the lazily allocated members of a Color Buffer.
\<close>

datatype resource = BlitImage | YuvConversionTarget | Resizer

text \<open>
  Modelled from the spec: the public operations of its section 4.3 (the member functions
  the header declares), as tags.
\<close>

datatype op_kind =
    K_readPixels
  | K_subUpdate
  | K_draw
  | K_scale
  | K_post
  | K_bindToTexture
  | K_bindToRenderbuffer
  | K_blitFromCurrentReadBuffer
  | K_readback

text \<open>
  Modelled from the spec: what a Color Buffer asks of the driver: the allocation of the
  primary image at creation, the creation of a lazily allocated member, a YUV conversion,
  and the GPU work of an operation.
\<close>

datatype gpu_call =
    Gpu_allocImage nat nat
  | Gpu_create resource
  | Gpu_yuvConvert
  | Gpu_work op_kind

text \<open>
  Modelled from the spec: what the driver and the collaborators answer: whether a request
  succeeds, the conversion of a pixel between two format/type pairs, the format/type pair
  of an internal format, the pair of 32-bit RGBA, the YUV decoding, the texture the
  resizer returns, and whether presentation needs a separate copy target.
\<close>

record 'px Driver =
  driver_ok :: "gpu_call \<Rightarrow> bool"
  convert :: "GLenum \<times> GLenum \<Rightarrow> GLenum \<times> GLenum \<Rightarrow> 'px \<Rightarrow> 'px"
  internal_repr :: "GLenum \<Rightarrow> GLenum \<times> GLenum"
  rgba_repr :: "GLenum \<times> GLenum"
  yuv_convert :: "FrameworkFormat \<Rightarrow> 'px list \<Rightarrow> 'px list"
  resize :: "GLuint \<Rightarrow> GLuint"
  separate_copy_target :: bool

text \<open>
  Modelled from the spec: the state of the driver.
\<close>

record 'px gpu =
  gpu_calls :: "gpu_call list"
  next_name :: nat
  tex_pixels :: "GLuint \<Rightarrow> nat \<times> nat \<Rightarrow> 'px"
  read_surface :: "(nat \<times> nat \<Rightarrow> 'px) option"

text \<open>
  Modelled from the spec: a request reaches the driver.
\<close>

definition request :: "gpu_call \<Rightarrow> 'px gpu \<Rightarrow> 'px gpu" where
  "request c gpu = gpu\<lparr>gpu_calls := gpu_calls gpu @ [c]\<rparr>"

subsection \<open>The factory\<close>

text \<open>
  Modelled from the spec: \<^verbatim>\<open>ColorBuffer::create\<close> is declared in the header (with the
  comment \<^verbatim>\<open>Returns NULL on failure\<close>) and defined in a file that is missing. By the spec
  it validates positive dimensions, allocates the primary image and texture of
  \<open>width \<times> height\<close>, and produces no instance if the allocation fails. The converter is
  present only for a YUV framework format; the lazily allocated members keep the values
  of their default member initialisers.
\<close>

definition create ::
  "'px Driver \<Rightarrow> nat option \<Rightarrow> int \<Rightarrow> int \<Rightarrow> GLenum \<Rightarrow> FrameworkFormat \<Rightarrow> bool \<Rightarrow> nat \<Rightarrow>
     addr option \<Rightarrow> 'px gpu \<Rightarrow> ColorBuffer option \<times> 'px gpu" where
  "create D p_display p_width p_height p_internalFormat p_frameworkFormat
      has_eglimage_texture_2d hndl helper gpu =
     (if p_width \<le> 0 \<or> p_height \<le> 0 then (None, gpu)
      else
        let c = Gpu_allocImage (nat p_width) (nat p_height);
            gpu1 = request c gpu
        in if \<not> driver_ok D c then (None, gpu1)
           else
             (Some \<lparr>m_tex = Suc (next_name gpu),
                    m_blitTex = 0,
                    m_eglImage = Some (Suc (next_name gpu)),
                    m_blitEGLImage = None,
                    m_width = nat p_width,
                    m_height = nat p_height,
                    m_fbo = 0,
                    m_internalFormat = p_internalFormat,
                    m_display = p_display,
                    m_helper = helper,
                    m_resizer = None,
                    m_frameworkFormat = p_frameworkFormat,
                    m_yuv_conversion_fbo = 0,
                    m_yuv_converter =
                      (if p_frameworkFormat = FRAMEWORK_FORMAT_GL_COMPATIBLE then None
                       else Some (Suc (Suc (next_name gpu)))),
                    mHndl = hndl\<rparr>,
              gpu1\<lparr>next_name := Suc (Suc (next_name gpu))\<rparr>))"

subsection \<open>Lazily allocated members\<close>

text \<open>
  Modelled from the spec: the blit image and texture, the YUV conversion target and the
  resizer are optional owned slots, initialised on first use.
\<close>

fun present :: "resource \<Rightarrow> ColorBuffer \<Rightarrow> bool" where
  "present BlitImage cb = (m_blitEGLImage cb \<noteq> None)"
| "present YuvConversionTarget cb = (m_yuv_conversion_fbo cb \<noteq> 0)"
| "present Resizer cb = (m_resizer cb \<noteq> None)"

text \<open>
  Modelled from the spec: a member is created under a fresh name, which is not null.
\<close>

fun install :: "resource \<Rightarrow> nat \<Rightarrow> ColorBuffer \<Rightarrow> ColorBuffer" where
  "install BlitImage n cb = cb\<lparr>m_blitTex := Suc n, m_blitEGLImage := Some (Suc n)\<rparr>"
| "install YuvConversionTarget n cb = cb\<lparr>m_yuv_conversion_fbo := Suc n\<rparr>"
| "install Resizer n cb = cb\<lparr>m_resizer := Some (Suc n)\<rparr>"

text \<open>
  Modelled from the spec: lazy allocation; an absent member is created, one that exists
  is kept.
\<close>

definition ensure :: "resource \<Rightarrow> ColorBuffer \<Rightarrow> 'px gpu \<Rightarrow> ColorBuffer \<times> 'px gpu" where
  "ensure r cb gpu =
     (if present r cb then (cb, gpu)
      else (install r (next_name gpu) cb,
            (request (Gpu_create r) gpu)\<lparr>next_name := Suc (next_name gpu)\<rparr>))"

subsection \<open>The public operations\<close>

text \<open>
  Modelled from the spec: the member functions below are declared in the header and
  defined in a file that is missing. By the spec each of them begins by acquiring a
  Scoped Context Guard and aborts with a failure result if the guard is not ok, does its
  GPU work, and releases the guard on every exit path. This is the usage the header's
  comment on \<^verbatim>\<open>RecursiveScopedHelperContext\<close> shows:
  \<^verbatim>\<open>RecursiveScopedHelperContext context(m_helper); if (!context.isOk()) { return false; }\<close>
  \<^verbatim>\<open>.... do something ....\<close>, with the destructor run at the closing brace.
\<close>

definition with_context ::
  "'h Helper \<Rightarrow> ColorBuffer \<Rightarrow> 'r \<Rightarrow>
     (ColorBuffer \<Rightarrow> 'h world \<Rightarrow> 'px gpu \<Rightarrow> error + ('r \<times> ColorBuffer \<times> 'h world \<times> 'px gpu)) \<Rightarrow>
     'h world \<Rightarrow> 'px gpu \<Rightarrow> error + ('r \<times> ColorBuffer \<times> 'h world \<times> 'px gpu)" where
  "with_context H cb failure body w gpu =
     (case RecursiveScopedHelperContext_new H (m_helper cb) w of
        Inl e \<Rightarrow> Inl e
      | Inr (context, w1) \<Rightarrow>
          if \<not> isOk context then
            (case RecursiveScopedHelperContext_delete H context w1 of
               Inl e \<Rightarrow> Inl e
             | Inr (context2, w2) \<Rightarrow> Inr (failure, cb, w2, gpu))
          else
            (case body cb w1 gpu of
               Inl e \<Rightarrow> Inl e
             | Inr (r, cb1, w2, gpu1) \<Rightarrow>
                 (case RecursiveScopedHelperContext_delete H context w2 of
                    Inl e \<Rightarrow> Inl e
                  | Inr (context2, w3) \<Rightarrow> Inr (r, cb1, w3, gpu1))))"

text \<open>
  Modelled from the spec: a rectangle must lie within \<open>[0,width) \<times> [0,height)\<close>; a
  rectangle out of range, and a host buffer too small for the rectangle, violate the
  contract, which is an error of the model. The pixels of a rectangle are in row-major
  order.
\<close>

definition in_bounds :: "ColorBuffer \<Rightarrow> int \<Rightarrow> int \<Rightarrow> int \<Rightarrow> int \<Rightarrow> bool" where
  "in_bounds cb x y width height =
     (0 \<le> x \<and> 0 \<le> y \<and> 0 \<le> width \<and> 0 \<le> height
      \<and> x + width \<le> int (m_width cb) \<and> y + height \<le> int (m_height cb))"

text \<open>
  Modelled from the spec: the coordinates of the pixels of a rectangle, row by row.
\<close>

definition rect_coords :: "nat \<Rightarrow> nat \<Rightarrow> nat \<Rightarrow> nat \<Rightarrow> (nat \<times> nat) list" where
  "rect_coords x y width height =
     map (\<lambda>k. (x + k mod width, y + k div width)) [0..<width * height]"

text \<open>
  Modelled from the spec: host pixels written into the rectangle of a texture; the texels
  outside the rectangle keep their values.
\<close>

definition upload ::
  "GLuint \<Rightarrow> nat \<Rightarrow> nat \<Rightarrow> nat \<Rightarrow> nat \<Rightarrow> 'px list \<Rightarrow> 'px gpu \<Rightarrow> 'px gpu" where
  "upload tex x y width height data gpu =
     gpu\<lparr>tex_pixels := (tex_pixels gpu)
       (tex := (\<lambda>c. if x \<le> fst c \<and> fst c < x + width \<and> y \<le> snd c \<and> snd c < y + height
                       \<and> (snd c - y) * width + (fst c - x) < length data
                    then data ! ((snd c - y) * width + (fst c - x))
                    else tex_pixels gpu tex c))\<rparr>"

text \<open>
  Modelled from the spec: \<^verbatim>\<open>readPixels\<close> copies the rectangle of the primary image into
  the caller's memory \<open>pixels\<close>, converting to \<open>p_format\<close>/\<open>p_type\<close> if they differ
  from the internal representation. The function returns \<^verbatim>\<open>void\<close>; the result of the
  model is the content of the caller's memory afterwards.
\<close>

definition readPixels_body ::
  "'px Driver \<Rightarrow> int \<Rightarrow> int \<Rightarrow> int \<Rightarrow> int \<Rightarrow> GLenum \<Rightarrow> GLenum \<Rightarrow> 'px list \<Rightarrow>
     ColorBuffer \<Rightarrow> 'h world \<Rightarrow> 'px gpu \<Rightarrow>
     error + ('px list \<times> ColorBuffer \<times> 'h world \<times> 'px gpu)" where
  "readPixels_body D x y width height p_format p_type pixels cb w gpu =
     (if \<not> in_bounds cb x y width height \<or> length pixels < nat width * nat height
      then Inl ContractViolation
      else
        let src = internal_repr D (m_internalFormat cb);
            texels = map (tex_pixels gpu (m_tex cb))
                       (rect_coords (nat x) (nat y) (nat width) (nat height));
            out = (if (p_format, p_type) = src then texels
                   else map (convert D src (p_format, p_type)) texels)
        in Inr (out @ drop (length out) pixels, cb, w,
                request (Gpu_work K_readPixels) gpu))"

text \<open>
  Modelled from the spec: \<^verbatim>\<open>readPixels\<close> runs under a Scoped Context Guard; when the
  guard is not ok the caller's memory is left as it was.
\<close>

definition readPixels ::
  "'h Helper \<Rightarrow> 'px Driver \<Rightarrow> ColorBuffer \<Rightarrow> int \<Rightarrow> int \<Rightarrow> int \<Rightarrow> int \<Rightarrow> GLenum \<Rightarrow> GLenum \<Rightarrow>
     'px list \<Rightarrow> 'h world \<Rightarrow> 'px gpu \<Rightarrow> error + ('px list \<times> ColorBuffer \<times> 'h world \<times> 'px gpu)" where
  "readPixels H D cb x y width height p_format p_type pixels w gpu =
     with_context H cb pixels
       (readPixels_body D x y width height p_format p_type pixels) w gpu"

text \<open>
  Modelled from the spec: \<^verbatim>\<open>subUpdate\<close> uploads the host pixels into the sub-rectangle
  of the primary image, converting from \<open>p_format\<close>/\<open>p_type\<close>; for a framework format
  that needs YUV handling the data is first decoded into the YUV conversion target
  (created on first use) and then composited into the primary image.
\<close>

definition subUpdate_body ::
  "'px Driver \<Rightarrow> int \<Rightarrow> int \<Rightarrow> int \<Rightarrow> int \<Rightarrow> GLenum \<Rightarrow> GLenum \<Rightarrow> 'px list \<Rightarrow>
     ColorBuffer \<Rightarrow> 'h world \<Rightarrow> 'px gpu \<Rightarrow>
     error + (unit \<times> ColorBuffer \<times> 'h world \<times> 'px gpu)" where
  "subUpdate_body D x y width height p_format p_type pixels cb w gpu =
     (if \<not> in_bounds cb x y width height then Inl ContractViolation
      else
        let dst = internal_repr D (m_internalFormat cb)
        in if m_frameworkFormat cb = FRAMEWORK_FORMAT_GL_COMPATIBLE then
             if length pixels < nat width * nat height then Inl ContractViolation
             else
               let data = (if (p_format, p_type) = dst then pixels
                           else map (convert D (p_format, p_type) dst) pixels)
               in Inr ((), cb, w,
                       upload (m_tex cb) (nat x) (nat y) (nat width) (nat height) data
                         (request (Gpu_work K_subUpdate) gpu))
           else
             let (cb2, gpu2) = ensure YuvConversionTarget cb gpu;
                 data = yuv_convert D (m_frameworkFormat cb2) pixels
             in Inr ((), cb2, w,
                     upload (m_tex cb2) (nat x) (nat y) (nat width) (nat height) data
                       (request (Gpu_work K_subUpdate) (request Gpu_yuvConvert gpu2))))"

text \<open>
  Modelled from the spec: \<^verbatim>\<open>subUpdate\<close> runs under a Scoped Context Guard.
\<close>

definition subUpdate ::
  "'h Helper \<Rightarrow> 'px Driver \<Rightarrow> ColorBuffer \<Rightarrow> int \<Rightarrow> int \<Rightarrow> int \<Rightarrow> int \<Rightarrow> GLenum \<Rightarrow> GLenum \<Rightarrow>
     'px list \<Rightarrow> 'h world \<Rightarrow> 'px gpu \<Rightarrow> error + (unit \<times> ColorBuffer \<times> 'h world \<times> 'px gpu)" where
  "subUpdate H D cb x y width height p_format p_type pixels w gpu =
     with_context H cb ()
       (subUpdate_body D x y width height p_format p_type pixels) w gpu"

text \<open>
  Modelled from the spec: \<^verbatim>\<open>draw\<close> has the drawing helper of the context capability
  blit the primary image into the bound destination; it reports what the driver reports.
\<close>

definition draw_body ::
  "'h Helper \<Rightarrow> 'px Driver \<Rightarrow> ColorBuffer \<Rightarrow> 'h world \<Rightarrow> 'px gpu \<Rightarrow>
     error + (bool \<times> ColorBuffer \<times> 'h world \<times> 'px gpu)" where
  "draw_body H D cb w gpu =
     (case call_getTextureDraw H (m_helper cb) w of
        Inl e \<Rightarrow> Inl e
      | Inr (textureDraw, w1) \<Rightarrow>
          (case textureDraw of
             None \<Rightarrow> Inl NullDeref
           | Some td \<Rightarrow>
               Inr (driver_ok D (Gpu_work K_draw), cb, w1, request (Gpu_work K_draw) gpu)))"

text \<open>
  Modelled from the spec: \<^verbatim>\<open>draw\<close> runs under a Scoped Context Guard and returns false
  when the guard is not ok.
\<close>

definition draw ::
  "'h Helper \<Rightarrow> 'px Driver \<Rightarrow> ColorBuffer \<Rightarrow> 'h world \<Rightarrow> 'px gpu \<Rightarrow>
     error + (bool \<times> ColorBuffer \<times> 'h world \<times> 'px gpu)" where
  "draw H D cb w gpu = with_context H cb False (draw_body H D) w gpu"

text \<open>The rotation and the offsets of \<^verbatim>\<open>post\<close> are \<^verbatim>\<open>float\<close>s, handed on as they are.\<close>

typedecl float

text \<open>
  Modelled from the spec: \<^verbatim>\<open>post\<close> is the presentation: it has the drawing helper
  present the texture to the display surface and reports what the driver reports. The
  blit image and texture are ``used when a separate copy target is needed for
  presentation'' and created lazily, so it is here that they are created.
\<close>

definition post_body ::
  "'h Helper \<Rightarrow> 'px Driver \<Rightarrow> GLuint \<Rightarrow> float \<Rightarrow> float \<Rightarrow> float \<Rightarrow> ColorBuffer \<Rightarrow>
     'h world \<Rightarrow> 'px gpu \<Rightarrow> error + (bool \<times> ColorBuffer \<times> 'h world \<times> 'px gpu)" where
  "post_body H D tex rotation dx dy cb w gpu =
     (case call_getTextureDraw H (m_helper cb) w of
        Inl e \<Rightarrow> Inl e
      | Inr (textureDraw, w1) \<Rightarrow>
          (case textureDraw of
             None \<Rightarrow> Inl NullDeref
           | Some td \<Rightarrow>
               let (cb1, gpu1) = (if separate_copy_target D then ensure BlitImage cb gpu
                                  else (cb, gpu))
               in Inr (driver_ok D (Gpu_work K_post), cb1, w1, request (Gpu_work K_post) gpu1)))"

text \<open>
  Modelled from the spec: \<^verbatim>\<open>post\<close> runs under a Scoped Context Guard and returns false
  when the guard is not ok.
\<close>

definition post ::
  "'h Helper \<Rightarrow> 'px Driver \<Rightarrow> ColorBuffer \<Rightarrow> GLuint \<Rightarrow> float \<Rightarrow> float \<Rightarrow> float \<Rightarrow> 'h world \<Rightarrow>
     'px gpu \<Rightarrow> error + (bool \<times> ColorBuffer \<times> 'h world \<times> 'px gpu)" where
  "post H D cb tex rotation dx dy w gpu =
     with_context H cb False (post_body H D tex rotation dx dy) w gpu"

text \<open>
  Modelled from the spec: \<^verbatim>\<open>scale\<close> creates the resizer on first use, has it resize the
  primary texture and returns the name of the resulting texture; the failure result of a
  \<^verbatim>\<open>GLuint\<close> is the null name \<open>0\<close>.
\<close>

definition scale_body ::
  "'px Driver \<Rightarrow> ColorBuffer \<Rightarrow> 'h world \<Rightarrow> 'px gpu \<Rightarrow>
     error + (GLuint \<times> ColorBuffer \<times> 'h world \<times> 'px gpu)" where
  "scale_body D cb w gpu =
     (let (cb2, gpu2) = ensure Resizer cb gpu
      in Inr (resize D (m_tex cb2), cb2, w, request (Gpu_work K_scale) gpu2))"

text \<open>
  Modelled from the spec: \<^verbatim>\<open>scale\<close> runs under a Scoped Context Guard and returns the
  null name when the guard is not ok.
\<close>

definition scale ::
  "'h Helper \<Rightarrow> 'px Driver \<Rightarrow> ColorBuffer \<Rightarrow> 'h world \<Rightarrow> 'px gpu \<Rightarrow>
     error + (GLuint \<times> ColorBuffer \<times> 'h world \<times> 'px gpu)" where
  "scale H D cb w gpu = with_context H cb 0 (scale_body D) w gpu"

text \<open>
  Modelled from the spec: the two bind operations return false if the underlying bind
  call fails.
\<close>

definition bind_with ::
  "'px Driver \<Rightarrow> op_kind \<Rightarrow> ColorBuffer \<Rightarrow> 'h world \<Rightarrow> 'px gpu \<Rightarrow>
     error + (bool \<times> ColorBuffer \<times> 'h world \<times> 'px gpu)" where
  "bind_with D k cb w gpu =
     Inr (driver_ok D (Gpu_work k), cb, w, request (Gpu_work k) gpu)"

text \<open>
  Modelled from the spec: \<^verbatim>\<open>bindToTexture\<close> runs under a Scoped Context Guard and
  returns false when the guard is not ok.
\<close>

definition bindToTexture ::
  "'h Helper \<Rightarrow> 'px Driver \<Rightarrow> ColorBuffer \<Rightarrow> 'h world \<Rightarrow> 'px gpu \<Rightarrow>
     error + (bool \<times> ColorBuffer \<times> 'h world \<times> 'px gpu)" where
  "bindToTexture H D cb w gpu = with_context H cb False (bind_with D K_bindToTexture) w gpu"

text \<open>
  Modelled from the spec: \<^verbatim>\<open>bindToRenderbuffer\<close> runs under a Scoped Context Guard and
  returns false when the guard is not ok.
\<close>

definition bindToRenderbuffer ::
  "'h Helper \<Rightarrow> 'px Driver \<Rightarrow> ColorBuffer \<Rightarrow> 'h world \<Rightarrow> 'px gpu \<Rightarrow>
     error + (bool \<times> ColorBuffer \<times> 'h world \<times> 'px gpu)" where
  "bindToRenderbuffer H D cb w gpu =
     with_context H cb False (bind_with D K_bindToRenderbuffer) w gpu"

text \<open>
  Modelled from the spec: \<^verbatim>\<open>blitFromCurrentReadBuffer\<close> copies the read surface of the
  bound context into the primary image; it returns false if there is none, or if the
  guard fails.
\<close>

definition blitFromCurrentReadBuffer_body ::
  "'px Driver \<Rightarrow> ColorBuffer \<Rightarrow> 'h world \<Rightarrow> 'px gpu \<Rightarrow>
     error + (bool \<times> ColorBuffer \<times> 'h world \<times> 'px gpu)" where
  "blitFromCurrentReadBuffer_body D cb w gpu =
     (case read_surface gpu of
        None \<Rightarrow> Inr (False, cb, w, gpu)
      | Some surface \<Rightarrow>
          let gpu2 = request (Gpu_work K_blitFromCurrentReadBuffer) gpu
          in if \<not> driver_ok D (Gpu_work K_blitFromCurrentReadBuffer)
             then Inr (False, cb, w, gpu2)
             else Inr (True, cb, w,
                    gpu2\<lparr>tex_pixels := (tex_pixels gpu2)
                      (m_tex cb := (\<lambda>c. if fst c < m_width cb \<and> snd c < m_height cb
                                         then surface c
                                         else tex_pixels gpu2 (m_tex cb) c))\<rparr>))"

text \<open>
  Modelled from the spec: \<^verbatim>\<open>blitFromCurrentReadBuffer\<close> runs under a Scoped Context
  Guard and returns false when the guard is not ok.
\<close>

definition blitFromCurrentReadBuffer ::
  "'h Helper \<Rightarrow> 'px Driver \<Rightarrow> ColorBuffer \<Rightarrow> 'h world \<Rightarrow> 'px gpu \<Rightarrow>
     error + (bool \<times> ColorBuffer \<times> 'h world \<times> 'px gpu)" where
  "blitFromCurrentReadBuffer H D cb w gpu =
     with_context H cb False (blitFromCurrentReadBuffer_body D) w gpu"

text \<open>
  Modelled from the spec: \<^verbatim>\<open>readback\<close> reads the whole buffer as 32-bit RGBA into a
  buffer of exactly \<open>width * height\<close> pixels.
\<close>

definition readback_body ::
  "'px Driver \<Rightarrow> 'px list \<Rightarrow> ColorBuffer \<Rightarrow> 'h world \<Rightarrow> 'px gpu \<Rightarrow>
     error + ('px list \<times> ColorBuffer \<times> 'h world \<times> 'px gpu)" where
  "readback_body D img cb w gpu =
     (if length img \<noteq> m_width cb * m_height cb then Inl ContractViolation
      else
        let src = internal_repr D (m_internalFormat cb);
            texels = map (tex_pixels gpu (m_tex cb))
                       (rect_coords 0 0 (m_width cb) (m_height cb))
        in Inr (if rgba_repr D = src then texels
                else map (convert D src (rgba_repr D)) texels,
                cb, w, request (Gpu_work K_readback) gpu))"

text \<open>
  Modelled from the spec: \<^verbatim>\<open>readback\<close> runs under a Scoped Context Guard; when the
  guard is not ok the caller's memory is left as it was.
\<close>

definition readback ::
  "'h Helper \<Rightarrow> 'px Driver \<Rightarrow> ColorBuffer \<Rightarrow> 'px list \<Rightarrow> 'h world \<Rightarrow> 'px gpu \<Rightarrow>
     error + ('px list \<times> ColorBuffer \<times> 'h world \<times> 'px gpu)" where
  "readback H D cb img w gpu = with_context H cb img (readback_body D img) w gpu"

subsection \<open>Sequences of operations\<close>

text \<open>
  Modelled from the spec: a public operation with its arguments, as a value, so that
  sequences of calls can be stated; the value a call returns; and the call itself.
\<close>

datatype 'px op =
    Op_readPixels int int int int GLenum GLenum "'px list"
  | Op_subUpdate int int int int GLenum GLenum "'px list"
  | Op_draw
  | Op_scale
  | Op_post GLuint float float float
  | Op_bindToTexture
  | Op_bindToRenderbuffer
  | Op_blitFromCurrentReadBuffer
  | Op_readback "'px list"

datatype 'px result = R_void | R_bool bool | R_GLuint GLuint | R_pixels "'px list"

definition returning ::
  "('a \<Rightarrow> 'px result) \<Rightarrow> error + ('a \<times> 'st) \<Rightarrow> error + ('px result \<times> 'st)" where
  "returning f x = (case x of Inl e \<Rightarrow> Inl e | Inr (r, st) \<Rightarrow> Inr (f r, st))"

fun apply_op ::
  "'h Helper \<Rightarrow> 'px Driver \<Rightarrow> 'px op \<Rightarrow> ColorBuffer \<Rightarrow> 'h world \<Rightarrow> 'px gpu \<Rightarrow>
     error + ('px result \<times> ColorBuffer \<times> 'h world \<times> 'px gpu)" where
  "apply_op H D (Op_readPixels x y width height p_format p_type pixels) cb w gpu =
     returning R_pixels (readPixels H D cb x y width height p_format p_type pixels w gpu)"
| "apply_op H D (Op_subUpdate x y width height p_format p_type pixels) cb w gpu =
     returning (\<lambda>u. R_void) (subUpdate H D cb x y width height p_format p_type pixels w gpu)"
| "apply_op H D Op_draw cb w gpu = returning R_bool (draw H D cb w gpu)"
| "apply_op H D Op_scale cb w gpu = returning R_GLuint (scale H D cb w gpu)"
| "apply_op H D (Op_post tex rotation dx dy) cb w gpu =
     returning R_bool (post H D cb tex rotation dx dy w gpu)"
| "apply_op H D Op_bindToTexture cb w gpu = returning R_bool (bindToTexture H D cb w gpu)"
| "apply_op H D Op_bindToRenderbuffer cb w gpu =
     returning R_bool (bindToRenderbuffer H D cb w gpu)"
| "apply_op H D Op_blitFromCurrentReadBuffer cb w gpu =
     returning R_bool (blitFromCurrentReadBuffer H D cb w gpu)"
| "apply_op H D (Op_readback img) cb w gpu = returning R_pixels (readback H D cb img w gpu)"

text \<open>
  Modelled from the spec: the failure result of an operation. It is \<^verbatim>\<open>false\<close> for a
  \<^verbatim>\<open>bool\<close>, the null name for the texture of \<^verbatim>\<open>scale\<close>, and nothing for a
  \<^verbatim>\<open>void\<close> operation, with the caller's memory left as it was.
\<close>

fun failure_result :: "'px op \<Rightarrow> 'px result" where
  "failure_result (Op_readPixels x y width height p_format p_type pixels) = R_pixels pixels"
| "failure_result (Op_subUpdate x y width height p_format p_type pixels) = R_void"
| "failure_result Op_draw = R_bool False"
| "failure_result Op_scale = R_GLuint 0"
| "failure_result (Op_post tex rotation dx dy) = R_bool False"
| "failure_result Op_bindToTexture = R_bool False"
| "failure_result Op_bindToRenderbuffer = R_bool False"
| "failure_result Op_blitFromCurrentReadBuffer = R_bool False"
| "failure_result (Op_readback img) = R_pixels img"

text \<open>The operations of a list, applied in order to one instance.\<close>

fun run_ops ::
  "'h Helper \<Rightarrow> 'px Driver \<Rightarrow> 'px op list \<Rightarrow> ColorBuffer \<Rightarrow> 'h world \<Rightarrow> 'px gpu \<Rightarrow>
     error + (ColorBuffer \<times> 'h world \<times> 'px gpu)" where
  "run_ops H D [] cb w gpu = Inr (cb, w, gpu)"
| "run_ops H D (op # ops) cb w gpu =
     (case apply_op H D op cb w gpu of
        Inl e \<Rightarrow> Inl e
      | Inr (r, cb1, w1, gpu1) \<Rightarrow> run_ops H D ops cb1 w1 gpu1)"

section \<open>Notions used in the statements\<close>

text \<open>
  An operation acquires its context when the guard built at its start is ok: the helper
  is not null and either a context is already bound or \<^verbatim>\<open>setupContext()\<close> succeeds. Such
  an operation executes; any other aborts.
\<close>

definition acquires :: "'h Helper \<Rightarrow> ColorBuffer \<Rightarrow> 'h world \<Rightarrow> bool" where
  "acquires H cb w =
     (case RecursiveScopedHelperContext_new H (m_helper cb) w of
        Inl e \<Rightarrow> False
      | Inr (context, w1) \<Rightarrow> isOk context)"

text \<open>
  \<open>retains cb cb'\<close>: the instance \<open>cb'\<close> has the members of \<open>cb\<close> that are fixed at
  creation, and every lazily allocated member that exists in \<open>cb\<close> is the same in \<open>cb'\<close>.
\<close>

definition retains :: "ColorBuffer \<Rightarrow> ColorBuffer \<Rightarrow> bool" where
  "retains cb cb' =
     (m_tex cb' = m_tex cb \<and> m_eglImage cb' = m_eglImage cb
      \<and> m_width cb' = m_width cb \<and> m_height cb' = m_height cb
      \<and> m_fbo cb' = m_fbo cb \<and> m_internalFormat cb' = m_internalFormat cb
      \<and> m_display cb' = m_display cb \<and> m_helper cb' = m_helper cb
      \<and> m_frameworkFormat cb' = m_frameworkFormat cb
      \<and> m_yuv_converter cb' = m_yuv_converter cb \<and> mHndl cb' = mHndl cb
      \<and> (m_blitEGLImage cb \<noteq> None \<longrightarrow>
            m_blitEGLImage cb' = m_blitEGLImage cb \<and> m_blitTex cb' = m_blitTex cb)
      \<and> (m_yuv_conversion_fbo cb \<noteq> 0 \<longrightarrow> m_yuv_conversion_fbo cb' = m_yuv_conversion_fbo cb)
      \<and> (m_resizer cb \<noteq> None \<longrightarrow> m_resizer cb' = m_resizer cb))"

text \<open>
  Which operation needs which lazily allocated member, in the words of the spec:
  \<^verbatim>\<open>scale\<close> needs the resizer, \<^verbatim>\<open>subUpdate\<close> on a buffer whose framework format
  requires YUV handling needs the YUV conversion target, and the presentation
  (\<^verbatim>\<open>post\<close>) needs the blit image when a separate copy target is needed for
  presentation. \<open>needed_during\<close> says that some operation of the list, applied in
  order, has executed and needed the member.
\<close>

fun kind :: "'px op \<Rightarrow> op_kind" where
  "kind (Op_readPixels x y width height p_format p_type pixels) = K_readPixels"
| "kind (Op_subUpdate x y width height p_format p_type pixels) = K_subUpdate"
| "kind Op_draw = K_draw"
| "kind Op_scale = K_scale"
| "kind (Op_post tex rotation dx dy) = K_post"
| "kind Op_bindToTexture = K_bindToTexture"
| "kind Op_bindToRenderbuffer = K_bindToRenderbuffer"
| "kind Op_blitFromCurrentReadBuffer = K_blitFromCurrentReadBuffer"
| "kind (Op_readback img) = K_readback"

fun needs :: "'px Driver \<Rightarrow> ColorBuffer \<Rightarrow> 'px op \<Rightarrow> resource \<Rightarrow> bool" where
  "needs D cb op BlitImage = (kind op = K_post \<and> separate_copy_target D)"
| "needs D cb op YuvConversionTarget =
     (kind op = K_subUpdate \<and> m_frameworkFormat cb \<noteq> FRAMEWORK_FORMAT_GL_COMPATIBLE)"
| "needs D cb op Resizer = (kind op = K_scale)"

fun needed_during ::
  "'h Helper \<Rightarrow> 'px Driver \<Rightarrow> resource \<Rightarrow> 'px op list \<Rightarrow> ColorBuffer \<Rightarrow> 'h world \<Rightarrow> 'px gpu \<Rightarrow>
     bool" where
  "needed_during H D r [] cb w gpu = False"
| "needed_during H D r (op # ops) cb w gpu =
     (case apply_op H D op cb w gpu of
        Inl e \<Rightarrow> False
      | Inr (res, cb1, w1, gpu1) \<Rightarrow>
          (acquires H cb w \<and> needs D cb op r) \<or> needed_during H D r ops cb1 w1 gpu1)"

text \<open>
  The identity-format case of an upload followed by a read with the same format and
  type: neither the conversion that \<^verbatim>\<open>subUpdate\<close> applies to the host pixels nor the
  one that \<^verbatim>\<open>readPixels\<close> applies to the texels changes them. The format/type pair of
  the internal representation on a GL-compatible buffer is such a case, whatever the
  conversions of the driver are.
\<close>

definition identity_format ::
  "'px Driver \<Rightarrow> ColorBuffer \<Rightarrow> GLenum \<Rightarrow> GLenum \<Rightarrow> 'px list \<Rightarrow> bool" where
  "identity_format D cb p_format p_type pixels =
     ((if m_frameworkFormat cb = FRAMEWORK_FORMAT_GL_COMPATIBLE
       then (if (p_format, p_type) = internal_repr D (m_internalFormat cb) then pixels
             else map (convert D (p_format, p_type) (internal_repr D (m_internalFormat cb)))
                    pixels)
       else yuv_convert D (m_frameworkFormat cb) pixels) = pixels
      \<and> (if (p_format, p_type) = internal_repr D (m_internalFormat cb) then pixels
          else map (convert D (internal_repr D (m_internalFormat cb)) (p_format, p_type))
                 pixels) = pixels)"

text \<open>How many times the driver was asked to create a lazily allocated member.\<close>

definition creations :: "resource \<Rightarrow> 'px gpu \<Rightarrow> nat" where
  "creations res gpu = count_list (gpu_calls gpu) (Gpu_create res)"

definition created_once ::
  "resource \<Rightarrow> ColorBuffer \<Rightarrow> 'px gpu \<Rightarrow> ColorBuffer \<Rightarrow> 'px gpu \<Rightarrow> bool" where
  "created_once res cb gpu cb' gpu' =
     (creations res gpu' =
        creations res gpu + (if present res cb' \<and> \<not> present res cb then 1 else 0))"

section \<open>A concrete instance for the examples\<close>

text \<open>
  A driver whose pixels are natural numbers, a \<open>2 \<times> 2\<close> GL-compatible buffer, and the
  states it goes through in the examples: after creation, after one and two executed
  \<^verbatim>\<open>scale()\<close> calls, and after an upload.
\<close>

text \<open>
  A concrete provider for the examples: the state of a helper is whether its context is
  current; \<^verbatim>\<open>setupContext\<close> succeeds exactly at the addresses below 100.
\<close>

definition demo_Helper :: "(addr \<times> bool) Helper" where
  "demo_Helper =
     \<lparr>setupContext = (\<lambda>s. (fst s < 100, (fst s, fst s < 100))),
      teardownContext = (\<lambda>s. (fst s, False)),
      getTextureDraw = (\<lambda>s. Some (fst s + 1000)),
      isBound = snd\<rparr>"

definition demo_world :: "bool \<Rightarrow> (addr \<times> bool) world" where
  "demo_world b = \<lparr>objs = (\<lambda>a. (a, b)), calls = []\<rparr>"

definition demo_Driver :: "nat Driver" where
  "demo_Driver =
     \<lparr>driver_ok = (\<lambda>c. True),
      convert = (\<lambda>src dst px. px + 1),
      internal_repr = (\<lambda>f. (f, 5121)),
      rgba_repr = (6408, 5121),
      yuv_convert = (\<lambda>f xs. xs),
      resize = (\<lambda>t. t + 100),
      separate_copy_target = True\<rparr>"

definition failing_Driver :: "nat Driver" where
  "failing_Driver = demo_Driver\<lparr>driver_ok := (\<lambda>c. False)\<rparr>"

definition demo_gpu :: "nat gpu" where
  "demo_gpu = \<lparr>gpu_calls = [], next_name = 0, tex_pixels = (\<lambda>t c. 0), read_surface = None\<rparr>"

definition demo_cb :: "addr option \<Rightarrow> ColorBuffer" where
  "demo_cb helper =
     \<lparr>m_tex = 1, m_blitTex = 0, m_eglImage = Some 1, m_blitEGLImage = None,
      m_width = 2, m_height = 2, m_fbo = 0, m_internalFormat = 6408, m_display = None,
      m_helper = helper, m_resizer = None,
      m_frameworkFormat = FRAMEWORK_FORMAT_GL_COMPATIBLE,
      m_yuv_conversion_fbo = 0, m_yuv_converter = None, mHndl = 7\<rparr>"

definition demo_gpu_created :: "nat gpu" where
  "demo_gpu_created = demo_gpu\<lparr>gpu_calls := [Gpu_allocImage 2 2], next_name := 2\<rparr>"

definition demo_cb_scaled :: ColorBuffer where
  "demo_cb_scaled = (demo_cb (Some 3))\<lparr>m_resizer := Some 3\<rparr>"

definition demo_world_once :: "(addr \<times> bool) world" where
  "demo_world_once =
     (demo_world False)\<lparr>calls :=
        [(3, Call_isBound), (3, Call_setupContext), (3, Call_teardownContext)]\<rparr>"

definition demo_world_twice :: "(addr \<times> bool) world" where
  "demo_world_twice =
     (demo_world False)\<lparr>calls :=
        [(3, Call_isBound), (3, Call_setupContext), (3, Call_teardownContext),
         (3, Call_isBound), (3, Call_setupContext), (3, Call_teardownContext)]\<rparr>"

definition demo_gpu_scaled :: "nat gpu" where
  "demo_gpu_scaled =
     demo_gpu\<lparr>gpu_calls := [Gpu_allocImage 2 2, Gpu_create Resizer, Gpu_work K_scale],
              next_name := 3\<rparr>"

definition demo_gpu_rescaled :: "nat gpu" where
  "demo_gpu_rescaled =
     demo_gpu\<lparr>gpu_calls :=
                [Gpu_allocImage 2 2, Gpu_create Resizer, Gpu_work K_scale, Gpu_work K_scale],
              next_name := 3\<rparr>"

definition demo_gpu_uploaded :: "nat gpu" where
  "demo_gpu_uploaded =
     upload 1 0 0 2 2 [1, 2, 3, 4] (request (Gpu_work K_subUpdate) demo_gpu_created)"

lemmas demo_defs =
  demo_Helper_def demo_world_def demo_Driver_def demo_gpu_def demo_cb_def
  demo_gpu_created_def demo_cb_scaled_def demo_world_once_def demo_world_twice_def
  demo_gpu_scaled_def demo_gpu_rescaled_def

lemmas guard_defs =
  with_context_def RecursiveScopedHelperContext_new_def RecursiveScopedHelperContext_delete_def
  release_def isOk_def call_isBound_def call_setupContext_def call_teardownContext_def
  call_getTextureDraw_def

section \<open>Properties of the guard\<close>

lemma release_after_release:
  assumes "release H g w = Inr (g1, w1)"
  shows "mHelper g1 = None" and "mNeedUnbind g1 = False"
  using assms by (auto simp: release_def split: if_splits sum.splits)

lemma release_idle:
  assumes "mNeedUnbind g = False"
  shows "release H g w = Inr (g\<lparr>mHelper := None\<rparr>, w)"
  using assms by (simp add: release_def)

lemma release_n_idle:
  assumes "mNeedUnbind g = False"
  shows "\<exists>g2. release_n H n g w = Inr (g2, w) \<and> mNeedUnbind g2 = False
           \<and> (0 < n \<longrightarrow> mHelper g2 = None) \<and> (n = 0 \<longrightarrow> g2 = g)"
  using assms
proof (induction n arbitrary: g)
  case 0
  then show ?case by simp
next
  case (Suc n)
  have idle: "mNeedUnbind (g\<lparr>mHelper := None\<rparr>) = False"
    using Suc.prems by simp
  from Suc.IH [OF idle] obtain g2 where
    g2: "release_n H n (g\<lparr>mHelper := None\<rparr>) w = Inr (g2, w)" "mNeedUnbind g2 = False"
        "0 < n \<longrightarrow> mHelper g2 = None" "n = 0 \<longrightarrow> g2 = g\<lparr>mHelper := None\<rparr>"
    by blast
  have "mHelper g2 = None"
    using g2(3,4) by (cases n) auto
  then show ?case
    using g2 Suc.prems by (simp add: release_idle)
qed

lemma new_null:
  "RecursiveScopedHelperContext_new H None w = Inl NullDeref"
  by (simp add: RecursiveScopedHelperContext_new_def call_isBound_def)

lemma new_bound:
  assumes "isBound H (objs w a)"
  shows "RecursiveScopedHelperContext_new H (Some a) w =
           Inr (\<lparr>mHelper = Some a, mNeedUnbind = False\<rparr>,
                w\<lparr>calls := calls w @ [(a, Call_isBound)]\<rparr>)"
  using assms by (simp add: RecursiveScopedHelperContext_new_def call_isBound_def)

lemma new_setup_failed:
  assumes "\<not> isBound H (objs w a)" and "\<not> fst (setupContext H (objs w a))"
  shows "RecursiveScopedHelperContext_new H (Some a) w =
           Inr (\<lparr>mHelper = None, mNeedUnbind = False\<rparr>,
                w\<lparr>objs := (objs w)(a := snd (setupContext H (objs w a))),
                  calls := calls w @ [(a, Call_isBound), (a, Call_setupContext)]\<rparr>)"
  using assms
  by (simp add: RecursiveScopedHelperContext_new_def call_isBound_def call_setupContext_def)

lemma new_setup_ok:
  assumes "\<not> isBound H (objs w a)" and "fst (setupContext H (objs w a))"
  shows "RecursiveScopedHelperContext_new H (Some a) w =
           Inr (\<lparr>mHelper = Some a, mNeedUnbind = True\<rparr>,
                w\<lparr>objs := (objs w)(a := snd (setupContext H (objs w a))),
                  calls := calls w @ [(a, Call_isBound), (a, Call_setupContext)]\<rparr>)"
  using assms
  by (simp add: RecursiveScopedHelperContext_new_def call_isBound_def call_setupContext_def)

lemma new_cases:
  assumes "RecursiveScopedHelperContext_new H (Some a) w = Inr (g, w1)"
  shows "g = \<lparr>mHelper = Some a, mNeedUnbind = False\<rparr>
       \<or> g = \<lparr>mHelper = None, mNeedUnbind = False\<rparr>
       \<or> g = \<lparr>mHelper = Some a, mNeedUnbind = True\<rparr>"
proof (cases "isBound H (objs w a)")
  case True
  then show ?thesis using assms by (simp add: new_bound)
next
  case False
  then show ?thesis
    using assms by (cases "fst (setupContext H (objs w a))")
      (auto simp: new_setup_failed new_setup_ok)
qed

lemma release_owed:
  assumes "mNeedUnbind g" and "mHelper g = Some a"
  shows "release H g w =
           Inr (g\<lparr>mNeedUnbind := False, mHelper := None\<rparr>,
                w\<lparr>objs := (objs w)(a := teardownContext H (objs w a)),
                  calls := calls w @ [(a, Call_teardownContext)]\<rparr>)"
  using assms by (simp add: release_def call_teardownContext_def)

lemma release_total:
  assumes "mNeedUnbind g \<longrightarrow> mHelper g \<noteq> None"
  shows "\<exists>g1 w1. release H g w = Inr (g1, w1)"
proof (cases "mNeedUnbind g")
  case True
  then obtain a where "mHelper g = Some a" using assms by auto
  with True show ?thesis by (simp add: release_owed)
next
  case False
  then show ?thesis by (simp add: release_idle)
qed

lemma release_n_then_delete_owed:
  assumes "mNeedUnbind g" and "mHelper g = Some a"
  shows "\<exists>g2 w2 g3.
           release_n H n g w = Inr (g2, w2)
         \<and> RecursiveScopedHelperContext_delete H g2 w2 =
             Inr (g3, w\<lparr>objs := (objs w)(a := teardownContext H (objs w a)),
                        calls := calls w @ [(a, Call_teardownContext)]\<rparr>)"
proof (cases n)
  case 0
  then show ?thesis
    using assms by (simp add: RecursiveScopedHelperContext_delete_def release_owed)
next
  case (Suc m)
  let ?g1 = "g\<lparr>mNeedUnbind := False, mHelper := None\<rparr>"
  let ?w1 = "w\<lparr>objs := (objs w)(a := teardownContext H (objs w a)),
                calls := calls w @ [(a, Call_teardownContext)]\<rparr>"
  have idle: "mNeedUnbind ?g1 = False" by simp
  from release_n_idle [OF idle, of H m ?w1] obtain g2 where
    g2: "release_n H m ?g1 ?w1 = Inr (g2, ?w1)" "mNeedUnbind g2 = False"
    by blast
  have "release_n H n g w = Inr (g2, ?w1)"
    using Suc assms g2(1) by (simp add: release_owed)
  moreover have "RecursiveScopedHelperContext_delete H g2 ?w1 =
                   Inr (g2\<lparr>mHelper := None\<rparr>, ?w1)"
    using g2(2) by (simp add: RecursiveScopedHelperContext_delete_def release_idle)
  ultimately show ?thesis by blast
qed

lemma release_n_then_delete_idle:
  assumes "mNeedUnbind g = False"
  shows "\<exists>g2 g3. release_n H n g w = Inr (g2, w)
           \<and> RecursiveScopedHelperContext_delete H g2 w = Inr (g3, w)"
proof -
  from release_n_idle [OF assms, of H n w] obtain g2 where
    g2: "release_n H n g w = Inr (g2, w)" "mNeedUnbind g2 = False"
    by blast
  have "RecursiveScopedHelperContext_delete H g2 w = Inr (g2\<lparr>mHelper := None\<rparr>, w)"
    using g2(2) by (simp add: RecursiveScopedHelperContext_delete_def release_idle)
  with g2(1) show ?thesis by blast
qed

lemma guard_lifetime_calls:
  "\<exists>g' w'. guard_lifetime H (Some a) n w = Inr (g', w')
     \<and> calls w' = calls w @ (a, Call_isBound) #
         (if isBound H (objs w a) then []
          else (a, Call_setupContext) #
            (if fst (setupContext H (objs w a)) then [(a, Call_teardownContext)] else []))"
proof (cases "isBound H (objs w a)")
  case True
  let ?w1 = "w\<lparr>calls := calls w @ [(a, Call_isBound)]\<rparr>"
  from release_n_then_delete_idle
    [of "\<lparr>mHelper = Some a, mNeedUnbind = False\<rparr>" H n ?w1]
  show ?thesis
    using True by (auto simp: guard_lifetime_def new_bound)
next
  case False
  let ?w1 = "w\<lparr>objs := (objs w)(a := snd (setupContext H (objs w a))),
                calls := calls w @ [(a, Call_isBound), (a, Call_setupContext)]\<rparr>"
  show ?thesis
  proof (cases "fst (setupContext H (objs w a))")
    case True
    from release_n_then_delete_owed
      [of "\<lparr>mHelper = Some a, mNeedUnbind = True\<rparr>" a H n ?w1]
    show ?thesis
      using True False by (auto simp: guard_lifetime_def new_setup_ok)
  next
    case ok: False
    from release_n_then_delete_idle
      [of "\<lparr>mHelper = None, mNeedUnbind = False\<rparr>" H n ?w1]
    show ?thesis
      using ok False by (auto simp: guard_lifetime_def new_setup_failed)
  qed
qed

lemma release_n_Suc_clears:
  assumes "mNeedUnbind g \<longrightarrow> mHelper g \<noteq> None"
  shows "\<exists>g2 w2. release_n H (Suc n) g w = Inr (g2, w2)
           \<and> mHelper g2 = None \<and> mNeedUnbind g2 = False"
proof -
  from release_total [OF assms, of H w] obtain g1 w1 where
    r: "release H g w = Inr (g1, w1)" by blast
  have idle: "mNeedUnbind g1 = False" and null: "mHelper g1 = None"
    using release_after_release [OF r] by simp_all
  from release_n_idle [OF idle, of H n w1] obtain g2 where
    g2: "release_n H n g1 w1 = Inr (g2, w1)" "mNeedUnbind g2 = False"
        "0 < n \<longrightarrow> mHelper g2 = None" "n = 0 \<longrightarrow> g2 = g1"
    by blast
  have "mHelper g2 = None"
    using g2(3,4) null by (cases n) auto
  then show ?thesis
    using r g2(1,2) by simp
qed

section \<open>Properties of the operations\<close>

subsection \<open>Passing the guard\<close>

lemma acquires_iff:
  "acquires H cb w =
     (\<exists>a. m_helper cb = Some a \<and> (isBound H (objs w a) \<or> fst (setupContext H (objs w a))))"
proof (cases "m_helper cb")
  case None
  then show ?thesis by (simp add: acquires_def new_null)
next
  case (Some a)
  show ?thesis
  proof (cases "isBound H (objs w a)")
    case True
    then show ?thesis using Some by (simp add: acquires_def new_bound isOk_def)
  next
    case False
    then show ?thesis
      using Some by (cases "fst (setupContext H (objs w a))")
        (simp_all add: acquires_def new_setup_ok new_setup_failed isOk_def)
  qed
qed

lemma with_context_failed:
  assumes "m_helper cb = Some a" and "\<not> isBound H (objs w a)"
    and "\<not> fst (setupContext H (objs w a))"
  shows "with_context H cb failure body w gpu =
           Inr (failure, cb,
                w\<lparr>objs := (objs w)(a := snd (setupContext H (objs w a))),
                  calls := calls w @ [(a, Call_isBound), (a, Call_setupContext)]\<rparr>,
                gpu)"
  using assms
  by (simp add: with_context_def new_setup_failed isOk_def
        RecursiveScopedHelperContext_delete_def release_idle)

lemma with_context_not_acquired:
  assumes "\<not> acquires H cb w"
    and "with_context H cb failure body w gpu = Inr (r, cb', w', gpu')"
  shows "r = failure \<and> cb' = cb \<and> gpu' = gpu"
  using assms
  by (auto simp: with_context_def acquires_def split: sum.splits if_splits)

lemma with_context_acquired:
  assumes "acquires H cb w"
    and "with_context H cb failure body w gpu = Inr (r, cb', w', gpu')"
  shows "\<exists>w1 w2. body cb w1 gpu = Inr (r, cb', w2, gpu')"
  using assms
  by (fastforce simp: with_context_def acquires_def split: sum.splits if_splits)

lemma with_context_cases:
  assumes "with_context H cb failure body w gpu = Inr (r, cb', w', gpu')"
  shows "(\<not> acquires H cb w \<and> r = failure \<and> cb' = cb \<and> gpu' = gpu)
       \<or> (acquires H cb w \<and> (\<exists>w1 w2. body cb w1 gpu = Inr (r, cb', w2, gpu')))"
  using with_context_not_acquired [OF _ assms] with_context_acquired [OF _ assms]
  by blast

lemma with_context_runs:
  assumes "acquires H cb w" and "\<forall>w1. body cb w1 gpu = Inr (r, cb', w1, gpu')"
  shows "\<exists>w'. with_context H cb failure body w gpu = Inr (r, cb', w', gpu')"
proof -
  obtain a where a: "m_helper cb = Some a"
    using assms(1) by (auto simp: acquires_iff)
  obtain g w1 where c: "RecursiveScopedHelperContext_new H (Some a) w = Inr (g, w1)"
    and ok: "isOk g"
    using assms(1) a by (auto simp: acquires_def split: sum.splits)
  have "mNeedUnbind g \<longrightarrow> mHelper g \<noteq> None"
    using new_cases [OF c] by auto
  from release_total [OF this, of H w1] obtain g2 w2 where
    "release H g w1 = Inr (g2, w2)" by blast
  then show ?thesis
    using a c ok assms(2)
    by (simp add: with_context_def RecursiveScopedHelperContext_delete_def)
qed

subsection \<open>What an operation keeps and what it creates\<close>

lemma retains_refl: "retains cb cb"
  by (simp add: retains_def)

lemma retains_trans: "retains cb cb1 \<Longrightarrow> retains cb1 cb2 \<Longrightarrow> retains cb cb2"
  by (auto simp: retains_def)

lemma ensure_retains: "ensure r cb gpu = (cb1, gpu1) \<Longrightarrow> retains cb cb1"
  by (cases r) (auto simp: ensure_def retains_def split: if_splits)

lemma ensure_present: "ensure r cb gpu = (cb1, gpu1) \<Longrightarrow> present r cb1"
  by (cases r) (auto simp: ensure_def split: if_splits)

lemma ensure_others:
  "ensure r cb gpu = (cb1, gpu1) \<Longrightarrow> r' \<noteq> r \<Longrightarrow> present r' cb1 = present r' cb"
  by (cases r; cases r') (auto simp: ensure_def split: if_splits)

lemma retains_present: "retains cb cb' \<Longrightarrow> present r cb \<Longrightarrow> present r cb'"
  by (cases r) (auto simp: retains_def)

text \<open>The operations that allocate nothing leave the instance as it is.\<close>

lemma bind_with_keeps:
  assumes "bind_with D k cb w1 gpu = Inr (r, cb', w2, gpu')"
  shows "cb' = cb \<and> creations res gpu' = creations res gpu"
  using assms
  by (auto simp: bind_with_def creations_def request_def)

lemma draw_body_keeps:
  assumes "draw_body H D cb w1 gpu = Inr (r, cb', w2, gpu')"
  shows "cb' = cb \<and> creations res gpu' = creations res gpu"
  using assms
  by (auto simp: draw_body_def creations_def request_def split: sum.splits option.splits)

lemma readPixels_body_keeps:
  assumes "readPixels_body D x y width height p_format p_type pixels cb w1 gpu = Inr (r, cb', w2, gpu')"
  shows "cb' = cb \<and> creations res gpu' = creations res gpu"
  using assms
  by (auto simp: readPixels_body_def Let_def creations_def request_def split: if_splits)

lemma readback_body_keeps:
  assumes "readback_body D img cb w1 gpu = Inr (r, cb', w2, gpu')"
  shows "cb' = cb \<and> creations res gpu' = creations res gpu"
  using assms
  by (auto simp: readback_body_def Let_def creations_def request_def split: if_splits)

lemma blitFromCurrentReadBuffer_body_keeps:
  assumes "blitFromCurrentReadBuffer_body D cb w1 gpu = Inr (r, cb', w2, gpu')"
  shows "cb' = cb \<and> creations res gpu' = creations res gpu"
  using assms
  by (auto simp: blitFromCurrentReadBuffer_body_def Let_def creations_def request_def
        split: if_splits option.splits)

lemma kept_step:
  assumes "cb' = cb \<and> creations res gpu' = creations res (gpu :: 'px gpu)"
  shows "retains cb cb' \<and> present res cb' = (present res cb \<or> False)"
    and "created_once res cb gpu cb' gpu'"
  using assms by (simp_all add: retains_refl created_once_def)

lemma post_body_step:
  assumes "post_body H D tex rotation dx dy cb w1 gpu = Inr (r, cb', w2, gpu')"
  shows "retains cb cb' \<and>
         present res cb' = (present res cb \<or> (res = BlitImage \<and> separate_copy_target D))"
proof (cases "separate_copy_target D")
  case False
  then have "cb' = cb"
    using assms by (auto simp: post_body_def split: sum.splits option.splits)
  then show ?thesis
    using False by (simp add: retains_refl)
next
  case True
  obtain cb1 gpu1 where e: "ensure BlitImage cb gpu = (cb1, gpu1)"
    by fastforce
  have "cb' = cb1"
    using assms e True by (auto simp: post_body_def split: sum.splits option.splits)
  then show ?thesis
    using True ensure_retains [OF e] ensure_present [OF e] ensure_others [OF e, of res]
    by (cases "res = BlitImage") auto
qed

lemma scale_body_step:
  assumes "scale_body D cb w1 gpu = Inr (r, cb', w2, gpu')"
  shows "retains cb cb' \<and> present res cb' = (present res cb \<or> res = Resizer)"
proof -
  obtain cb2 gpu2 where e: "ensure Resizer cb gpu = (cb2, gpu2)"
    by fastforce
  have "cb' = cb2"
    using assms e by (simp add: scale_body_def)
  then show ?thesis
    using ensure_retains [OF e] ensure_present [OF e] ensure_others [OF e, of res]
    by (cases "res = Resizer") auto
qed

lemma subUpdate_body_step:
  assumes "subUpdate_body D x y width height p_format p_type pixels cb w1 gpu
             = Inr (r, cb', w2, gpu')"
  shows "retains cb cb' \<and>
         present res cb' =
           (present res cb
            \<or> (res = YuvConversionTarget
                \<and> m_frameworkFormat cb \<noteq> FRAMEWORK_FORMAT_GL_COMPATIBLE))"
proof (cases "m_frameworkFormat cb = FRAMEWORK_FORMAT_GL_COMPATIBLE")
  case True
  then have "cb' = cb"
    using assms by (simp add: subUpdate_body_def Let_def split: if_splits)
  then show ?thesis
    using True by (simp add: retains_refl)
next
  case False
  obtain cb2 gpu2 where e: "ensure YuvConversionTarget cb gpu = (cb2, gpu2)"
    by fastforce
  have "cb' = cb2"
    using assms e False by (simp add: subUpdate_body_def Let_def split: if_splits)
  then show ?thesis
    using False ensure_retains [OF e] ensure_present [OF e] ensure_others [OF e, of res]
    by (cases "res = YuvConversionTarget") auto
qed

lemma with_context_step:
  assumes "with_context H cb failure body w gpu = Inr (r, cb', w', gpu')"
    and "\<forall>w1 w2. body cb w1 gpu = Inr (r, cb', w2, gpu') \<longrightarrow>
           retains cb cb' \<and> present res cb' = (present res cb \<or> N)"
  shows "retains cb cb' \<and> present res cb' = (present res cb \<or> (acquires H cb w \<and> N))"
  using with_context_cases [OF assms(1)] assms(2) by (auto simp: retains_refl)

lemma apply_op_step:
  assumes "apply_op H D op cb w gpu = Inr (r, cb', w', gpu')"
  shows "retains cb cb' \<and>
         present res cb' = (present res cb \<or> (acquires H cb w \<and> needs D cb op res))"
proof (cases op)
  case (Op_readPixels x y width height p_format p_type pixels)
  then obtain b where c: "readPixels H D cb x y width height p_format p_type pixels w gpu = Inr (b, cb', w', gpu')"
    using assms by (auto simp: returning_def split: sum.splits)
  have "\<forall>w1 w2. readPixels_body D x y width height p_format p_type pixels cb w1 gpu = Inr (b, cb', w2, gpu') \<longrightarrow>
          retains cb cb' \<and> present res cb' = (present res cb \<or> (False))"
    using kept_step(1) [OF readPixels_body_keeps] by blast
  from with_context_step [OF c [unfolded readPixels_def] this]
  show ?thesis
    using Op_readPixels by (cases res) auto
next
  case (Op_subUpdate x y width height p_format p_type pixels)
  then obtain b where c: "subUpdate H D cb x y width height p_format p_type pixels w gpu = Inr (b, cb', w', gpu')"
    using assms by (auto simp: returning_def split: sum.splits)
  have "\<forall>w1 w2. subUpdate_body D x y width height p_format p_type pixels cb w1 gpu = Inr (b, cb', w2, gpu') \<longrightarrow>
          retains cb cb' \<and> present res cb' = (present res cb \<or> (res = YuvConversionTarget
                \<and> m_frameworkFormat cb \<noteq> FRAMEWORK_FORMAT_GL_COMPATIBLE))"
    using subUpdate_body_step by blast
  from with_context_step [OF c [unfolded subUpdate_def] this]
  show ?thesis
    using Op_subUpdate by (cases res) auto
next
  case Op_draw
  then obtain b where c: "draw H D cb w gpu = Inr (b, cb', w', gpu')"
    using assms by (auto simp: returning_def split: sum.splits)
  have "\<forall>w1 w2. draw_body H D cb w1 gpu = Inr (b, cb', w2, gpu') \<longrightarrow>
          retains cb cb' \<and> present res cb' = (present res cb \<or> (False))"
    using kept_step(1) [OF draw_body_keeps] by blast
  from with_context_step [OF c [unfolded draw_def] this]
  show ?thesis
    using Op_draw by (cases res) auto
next
  case Op_scale
  then obtain b where c: "scale H D cb w gpu = Inr (b, cb', w', gpu')"
    using assms by (auto simp: returning_def split: sum.splits)
  have "\<forall>w1 w2. scale_body D cb w1 gpu = Inr (b, cb', w2, gpu') \<longrightarrow>
          retains cb cb' \<and> present res cb' = (present res cb \<or> (res = Resizer))"
    using scale_body_step by blast
  from with_context_step [OF c [unfolded scale_def] this]
  show ?thesis
    using Op_scale by (cases res) auto
next
  case (Op_post tex rotation dx dy)
  then obtain b where c: "post H D cb tex rotation dx dy w gpu = Inr (b, cb', w', gpu')"
    using assms by (auto simp: returning_def split: sum.splits)
  have "\<forall>w1 w2. post_body H D tex rotation dx dy cb w1 gpu = Inr (b, cb', w2, gpu') \<longrightarrow>
          retains cb cb' \<and> present res cb' = (present res cb \<or> (res = BlitImage \<and> separate_copy_target D))"
    using post_body_step by blast
  from with_context_step [OF c [unfolded post_def] this]
  show ?thesis
    using Op_post by (cases res) auto
next
  case Op_bindToTexture
  then obtain b where c: "bindToTexture H D cb w gpu = Inr (b, cb', w', gpu')"
    using assms by (auto simp: returning_def split: sum.splits)
  have "\<forall>w1 w2. bind_with D K_bindToTexture cb w1 gpu = Inr (b, cb', w2, gpu') \<longrightarrow>
          retains cb cb' \<and> present res cb' = (present res cb \<or> (False))"
    using kept_step(1) [OF bind_with_keeps] by blast
  from with_context_step [OF c [unfolded bindToTexture_def] this]
  show ?thesis
    using Op_bindToTexture by (cases res) auto
next
  case Op_bindToRenderbuffer
  then obtain b where c: "bindToRenderbuffer H D cb w gpu = Inr (b, cb', w', gpu')"
    using assms by (auto simp: returning_def split: sum.splits)
  have "\<forall>w1 w2. bind_with D K_bindToRenderbuffer cb w1 gpu = Inr (b, cb', w2, gpu') \<longrightarrow>
          retains cb cb' \<and> present res cb' = (present res cb \<or> (False))"
    using kept_step(1) [OF bind_with_keeps] by blast
  from with_context_step [OF c [unfolded bindToRenderbuffer_def] this]
  show ?thesis
    using Op_bindToRenderbuffer by (cases res) auto
next
  case Op_blitFromCurrentReadBuffer
  then obtain b where c: "blitFromCurrentReadBuffer H D cb w gpu = Inr (b, cb', w', gpu')"
    using assms by (auto simp: returning_def split: sum.splits)
  have "\<forall>w1 w2. blitFromCurrentReadBuffer_body D cb w1 gpu = Inr (b, cb', w2, gpu') \<longrightarrow>
          retains cb cb' \<and> present res cb' = (present res cb \<or> (False))"
    using kept_step(1) [OF blitFromCurrentReadBuffer_body_keeps] by blast
  from with_context_step [OF c [unfolded blitFromCurrentReadBuffer_def] this]
  show ?thesis
    using Op_blitFromCurrentReadBuffer by (cases res) auto
next
  case (Op_readback img)
  then obtain b where c: "readback H D cb img w gpu = Inr (b, cb', w', gpu')"
    using assms by (auto simp: returning_def split: sum.splits)
  have "\<forall>w1 w2. readback_body D img cb w1 gpu = Inr (b, cb', w2, gpu') \<longrightarrow>
          retains cb cb' \<and> present res cb' = (present res cb \<or> (False))"
    using kept_step(1) [OF readback_body_keeps] by blast
  from with_context_step [OF c [unfolded readback_def] this]
  show ?thesis
    using Op_readback by (cases res) auto
qed

lemma run_ops_step:
  assumes "run_ops H D ops cb w gpu = Inr (cb', w', gpu')"
  shows "retains cb cb' \<and>
         present res cb' = (present res cb \<or> needed_during H D res ops cb w gpu)"
  using assms
proof (induction ops arbitrary: cb w gpu)
  case Nil
  then show ?case by (simp add: retains_refl)
next
  case (Cons op ops)
  from Cons.prems obtain r cb1 w1 gpu1 where
    a: "apply_op H D op cb w gpu = Inr (r, cb1, w1, gpu1)"
    and rest: "run_ops H D ops cb1 w1 gpu1 = Inr (cb', w', gpu')"
    by (auto split: sum.splits)
  from Cons.IH [OF rest] apply_op_step [OF a, of res] a
  show ?case
    by (auto intro: retains_trans)
qed

lemma create_fresh:
  assumes "create D p_display p_width p_height p_internalFormat p_frameworkFormat tex2d hndl
             helper gpu0 = (Some cb, gpu)"
  shows "\<not> present res cb" and "int (m_width cb) = p_width" and "int (m_height cb) = p_height"
    and "m_helper cb = helper"
  using assms by (cases res; auto simp: create_def Let_def split: if_splits)+

subsection \<open>A member is created once\<close>

lemma created_once_refl: "created_once res cb gpu cb gpu"
  by (simp add: created_once_def)

lemma created_once_trans:
  assumes "created_once res cb gpu cb1 gpu1" and "created_once res cb1 gpu1 cb2 gpu2"
    and "present res cb \<longrightarrow> present res cb1" and "present res cb1 \<longrightarrow> present res cb2"
  shows "created_once res cb gpu cb2 gpu2"
proof (cases "present res cb")
  case True
  then show ?thesis using assms by (simp add: created_once_def)
next
  case False
  then show ?thesis
    using assms by (cases "present res cb1") (simp_all add: created_once_def)
qed

lemma created_once_request:
  assumes "created_once res cb gpu cb1 gpu1" and "c \<noteq> Gpu_create res"
  shows "created_once res cb gpu cb1 (request c gpu1)"
  using assms by (simp add: created_once_def creations_def request_def)

lemma ensure_created_once:
  assumes "ensure r cb gpu = (cb1, gpu1)"
  shows "created_once res cb gpu cb1 gpu1"
proof (cases "present r cb")
  case True
  then show ?thesis using assms by (simp add: ensure_def created_once_def)
next
  case False
  then have cb1: "cb1 = install r (next_name gpu) cb"
    and gpu1: "gpu1 = (request (Gpu_create r) gpu)\<lparr>next_name := Suc (next_name gpu)\<rparr>"
    using assms by (simp_all add: ensure_def)
  show ?thesis
  proof (cases "res = r")
    case True
    then show ?thesis
      using False cb1 gpu1 ensure_present [OF assms]
      by (simp add: created_once_def creations_def request_def)
  next
    case neq: False
    then show ?thesis
      using gpu1 ensure_others [OF assms, of res]
      by (simp add: created_once_def creations_def request_def)
  qed
qed

lemma post_body_created_once:
  assumes "post_body H D tex rotation dx dy cb w1 gpu = Inr (r, cb', w2, gpu')"
  shows "created_once res cb gpu cb' gpu'"
proof -
  obtain cb1 gpu1 where
    e: "(if separate_copy_target D then ensure BlitImage cb gpu else (cb, gpu)) = (cb1, gpu1)"
    by fastforce
  have c: "cb' = cb1" "gpu' = request (Gpu_work K_post) gpu1"
    using assms e by (auto simp: post_body_def split: sum.splits option.splits)
  have "created_once res cb gpu cb1 gpu1"
    using e ensure_created_once [of BlitImage cb gpu cb1 gpu1 res]
    by (auto simp: created_once_refl split: if_splits)
  then show ?thesis
    unfolding c by (intro created_once_request) simp_all
qed

lemma scale_body_created_once:
  assumes "scale_body D cb w1 gpu = Inr (r, cb', w2, gpu')"
  shows "created_once res cb gpu cb' gpu'"
proof -
  obtain cb2 gpu2 where e: "ensure Resizer cb gpu = (cb2, gpu2)"
    by fastforce
  have c: "cb' = cb2" "gpu' = request (Gpu_work K_scale) gpu2"
    using assms e by (simp_all add: scale_body_def)
  show ?thesis
    unfolding c using ensure_created_once [OF e, of res]
    by (intro created_once_request) simp_all
qed

lemma upload_created_once:
  assumes "created_once res cb gpu cb1 gpu1"
  shows "created_once res cb gpu cb1 (upload tex x y width height data gpu1)"
  using assms by (simp add: created_once_def creations_def upload_def)

lemma subUpdate_body_created_once:
  assumes "subUpdate_body D x y width height p_format p_type pixels cb w1 gpu
             = Inr (r, cb', w2, gpu')"
  shows "created_once res cb gpu cb' gpu'"
proof (cases "m_frameworkFormat cb = FRAMEWORK_FORMAT_GL_COMPATIBLE")
  case True
  then obtain data where c: "cb' = cb"
    "gpu' = upload (m_tex cb) (nat x) (nat y) (nat width) (nat height) data
              (request (Gpu_work K_subUpdate) gpu)"
    using assms by (auto simp: subUpdate_body_def Let_def split: if_splits)
  show ?thesis
    unfolding c
    by (intro upload_created_once created_once_request created_once_refl) simp_all
next
  case False
  obtain cb2 gpu2 where e: "ensure YuvConversionTarget cb gpu = (cb2, gpu2)"
    by fastforce
  from False obtain data where c: "cb' = cb2"
    "gpu' = upload (m_tex cb2) (nat x) (nat y) (nat width) (nat height) data
              (request (Gpu_work K_subUpdate) (request Gpu_yuvConvert gpu2))"
    using assms e by (auto simp: subUpdate_body_def Let_def split: if_splits)
  show ?thesis
    unfolding c using ensure_created_once [OF e, of res]
    by (intro upload_created_once created_once_request) simp_all
qed

lemma with_context_created_once:
  assumes "with_context H cb failure body w gpu = Inr (r, cb', w', gpu')"
    and "\<forall>w1 w2. body cb w1 gpu = Inr (r, cb', w2, gpu') \<longrightarrow> created_once res cb gpu cb' gpu'"
  shows "created_once res cb gpu cb' gpu'"
  using with_context_cases [OF assms(1)] assms(2) by (auto simp: created_once_refl)

lemma apply_op_created_once:
  assumes "apply_op H D op cb w gpu = Inr (r, cb', w', gpu')"
  shows "created_once res cb gpu cb' gpu'"
proof (cases op)
  case (Op_readPixels x y width height p_format p_type pixels)
  then obtain b where c: "readPixels H D cb x y width height p_format p_type pixels w gpu = Inr (b, cb', w', gpu')"
    using assms by (auto simp: returning_def split: sum.splits)
  have "\<forall>w1 w2. readPixels_body D x y width height p_format p_type pixels cb w1 gpu = Inr (b, cb', w2, gpu') \<longrightarrow>
          created_once res cb gpu cb' gpu'"
    using kept_step(2) [OF readPixels_body_keeps] by blast
  from with_context_created_once [OF c [unfolded readPixels_def] this]
  show ?thesis .
next
  case (Op_subUpdate x y width height p_format p_type pixels)
  then obtain b where c: "subUpdate H D cb x y width height p_format p_type pixels w gpu = Inr (b, cb', w', gpu')"
    using assms by (auto simp: returning_def split: sum.splits)
  have "\<forall>w1 w2. subUpdate_body D x y width height p_format p_type pixels cb w1 gpu = Inr (b, cb', w2, gpu') \<longrightarrow>
          created_once res cb gpu cb' gpu'"
    using subUpdate_body_created_once by blast
  from with_context_created_once [OF c [unfolded subUpdate_def] this]
  show ?thesis .
next
  case Op_draw
  then obtain b where c: "draw H D cb w gpu = Inr (b, cb', w', gpu')"
    using assms by (auto simp: returning_def split: sum.splits)
  have "\<forall>w1 w2. draw_body H D cb w1 gpu = Inr (b, cb', w2, gpu') \<longrightarrow>
          created_once res cb gpu cb' gpu'"
    using kept_step(2) [OF draw_body_keeps] by blast
  from with_context_created_once [OF c [unfolded draw_def] this]
  show ?thesis .
next
  case Op_scale
  then obtain b where c: "scale H D cb w gpu = Inr (b, cb', w', gpu')"
    using assms by (auto simp: returning_def split: sum.splits)
  have "\<forall>w1 w2. scale_body D cb w1 gpu = Inr (b, cb', w2, gpu') \<longrightarrow>
          created_once res cb gpu cb' gpu'"
    using scale_body_created_once by blast
  from with_context_created_once [OF c [unfolded scale_def] this]
  show ?thesis .
next
  case (Op_post tex rotation dx dy)
  then obtain b where c: "post H D cb tex rotation dx dy w gpu = Inr (b, cb', w', gpu')"
    using assms by (auto simp: returning_def split: sum.splits)
  have "\<forall>w1 w2. post_body H D tex rotation dx dy cb w1 gpu = Inr (b, cb', w2, gpu') \<longrightarrow>
          created_once res cb gpu cb' gpu'"
    using post_body_created_once by blast
  from with_context_created_once [OF c [unfolded post_def] this]
  show ?thesis .
next
  case Op_bindToTexture
  then obtain b where c: "bindToTexture H D cb w gpu = Inr (b, cb', w', gpu')"
    using assms by (auto simp: returning_def split: sum.splits)
  have "\<forall>w1 w2. bind_with D K_bindToTexture cb w1 gpu = Inr (b, cb', w2, gpu') \<longrightarrow>
          created_once res cb gpu cb' gpu'"
    using kept_step(2) [OF bind_with_keeps] by blast
  from with_context_created_once [OF c [unfolded bindToTexture_def] this]
  show ?thesis .
next
  case Op_bindToRenderbuffer
  then obtain b where c: "bindToRenderbuffer H D cb w gpu = Inr (b, cb', w', gpu')"
    using assms by (auto simp: returning_def split: sum.splits)
  have "\<forall>w1 w2. bind_with D K_bindToRenderbuffer cb w1 gpu = Inr (b, cb', w2, gpu') \<longrightarrow>
          created_once res cb gpu cb' gpu'"
    using kept_step(2) [OF bind_with_keeps] by blast
  from with_context_created_once [OF c [unfolded bindToRenderbuffer_def] this]
  show ?thesis .
next
  case Op_blitFromCurrentReadBuffer
  then obtain b where c: "blitFromCurrentReadBuffer H D cb w gpu = Inr (b, cb', w', gpu')"
    using assms by (auto simp: returning_def split: sum.splits)
  have "\<forall>w1 w2. blitFromCurrentReadBuffer_body D cb w1 gpu = Inr (b, cb', w2, gpu') \<longrightarrow>
          created_once res cb gpu cb' gpu'"
    using kept_step(2) [OF blitFromCurrentReadBuffer_body_keeps] by blast
  from with_context_created_once [OF c [unfolded blitFromCurrentReadBuffer_def] this]
  show ?thesis .
next
  case (Op_readback img)
  then obtain b where c: "readback H D cb img w gpu = Inr (b, cb', w', gpu')"
    using assms by (auto simp: returning_def split: sum.splits)
  have "\<forall>w1 w2. readback_body D img cb w1 gpu = Inr (b, cb', w2, gpu') \<longrightarrow>
          created_once res cb gpu cb' gpu'"
    using kept_step(2) [OF readback_body_keeps] by blast
  from with_context_created_once [OF c [unfolded readback_def] this]
  show ?thesis .
qed

lemma run_ops_created_once:
  assumes "run_ops H D ops cb w gpu = Inr (cb', w', gpu')"
  shows "created_once res cb gpu cb' gpu'"
  using assms
proof (induction ops arbitrary: cb w gpu)
  case Nil
  then show ?case by (simp add: created_once_refl)
next
  case (Cons op ops)
  from Cons.prems obtain r cb1 w1 gpu1 where
    a: "apply_op H D op cb w gpu = Inr (r, cb1, w1, gpu1)"
    and rest: "run_ops H D ops cb1 w1 gpu1 = Inr (cb', w', gpu')"
    by (auto split: sum.splits)
  have "present res cb \<longrightarrow> present res cb1"
    using apply_op_step [OF a] retains_present by blast
  moreover have "present res cb1 \<longrightarrow> present res cb'"
    using run_ops_step [OF rest] retains_present by blast
  ultimately show ?case
    using created_once_trans [OF apply_op_created_once [OF a] Cons.IH [OF rest]] by blast
qed

subsection \<open>Upload and read\<close>

lemma rect_index:
  fixes k width height :: nat
  assumes "k < width * height"
  shows "k mod width < width" and "k div width < height"
    and "(k div width) * width + k mod width = k"
proof -
  have pos: "0 < width"
    using assms by (cases width) simp_all
  then show "k mod width < width" by simp
  show "k div width < height"
    using assms pos by (simp add: less_mult_imp_div_less mult.commute)
  show "(k div width) * width + k mod width = k"
    by simp
qed

lemma upload_then_read:
  assumes "length data = width * height"
  shows "map (tex_pixels (upload tex x y width height data gpu) tex)
           (rect_coords x y width height) = data"
proof (rule nth_equalityI)
  show "length (map (tex_pixels (upload tex x y width height data gpu) tex)
           (rect_coords x y width height)) = length data"
    using assms by (simp add: rect_coords_def)
next
  fix k
  assume "k < length (map (tex_pixels (upload tex x y width height data gpu) tex)
           (rect_coords x y width height))"
  then have k: "k < width * height"
    by (simp add: rect_coords_def)
  have c: "rect_coords x y width height ! k = (x + k mod width, y + k div width)"
    using k by (simp add: rect_coords_def)
  have "tex_pixels (upload tex x y width height data gpu) tex (x + k mod width, y + k div width)
          = data ! k"
    using rect_index [OF k] k assms by (simp add: upload_def)
  then show "map (tex_pixels (upload tex x y width height data gpu) tex)
           (rect_coords x y width height) ! k = data ! k"
    using k c by (simp add: rect_coords_def)
qed

text \<open>
  In the identity-format case \<^verbatim>\<open>subUpdate\<close> that executes writes the host pixels as
  they are into the rectangle of the primary texture.
\<close>

lemma subUpdate_body_identity:
  assumes "in_bounds cb x y width height"
    and "length pixels = nat width * nat height"
    and "identity_format D cb p_format p_type pixels"
  shows "\<exists>cb1 gpuP. retains cb cb1 \<and>
           (\<forall>w1. subUpdate_body D x y width height p_format p_type pixels cb w1 gpu
              = Inr ((), cb1, w1,
                     upload (m_tex cb1) (nat x) (nat y) (nat width) (nat height) pixels gpuP))"
proof (cases "m_frameworkFormat cb = FRAMEWORK_FORMAT_GL_COMPATIBLE")
  case True
  have "(if (p_format, p_type) = internal_repr D (m_internalFormat cb) then pixels
         else map (convert D (p_format, p_type) (internal_repr D (m_internalFormat cb))) pixels)
          = pixels"
    using assms(3) True by (simp add: identity_format_def)
  then have "\<forall>w1. subUpdate_body D x y width height p_format p_type pixels cb w1 gpu
              = Inr ((), cb, w1,
                     upload (m_tex cb) (nat x) (nat y) (nat width) (nat height) pixels
                       (request (Gpu_work K_subUpdate) gpu))"
    using assms(1,2) True by (simp add: subUpdate_body_def Let_def)
  then show ?thesis
    using retains_refl by blast
next
  case False
  obtain cb2 gpu2 where e: "ensure YuvConversionTarget cb gpu = (cb2, gpu2)"
    by fastforce
  have keep: "retains cb cb2"
    using ensure_retains [OF e] .
  then have fmt: "m_frameworkFormat cb2 = m_frameworkFormat cb"
    by (simp add: retains_def)
  have "yuv_convert D (m_frameworkFormat cb) pixels = pixels"
    using assms(3) False by (simp add: identity_format_def)
  then have "\<forall>w1. subUpdate_body D x y width height p_format p_type pixels cb w1 gpu
              = Inr ((), cb2, w1,
                     upload (m_tex cb2) (nat x) (nat y) (nat width) (nat height) pixels
                       (request (Gpu_work K_subUpdate) (request Gpu_yuvConvert gpu2)))"
    using assms(1) False e fmt by (simp add: subUpdate_body_def Let_def)
  then show ?thesis
    using keep by blast
qed

lemma identity_format_internal:
  assumes "m_frameworkFormat cb = FRAMEWORK_FORMAT_GL_COMPATIBLE"
    and "(p_format, p_type) = internal_repr D (m_internalFormat cb)"
  shows "identity_format D cb p_format p_type pixels"
  using assms by (simp add: identity_format_def)

lemma identity_format_retains:
  assumes "retains cb cb1" and "identity_format D cb p_format p_type pixels"
  shows "(if (p_format, p_type) = internal_repr D (m_internalFormat cb1) then pixels
          else map (convert D (internal_repr D (m_internalFormat cb1)) (p_format, p_type))
                 pixels) = pixels"
  using assms by (auto simp: identity_format_def retains_def split: if_splits)

subsection \<open>The concrete instance\<close>

lemma demo_objs: "(\<lambda>a. (a, b))(x := (x, b)) = (\<lambda>a. (a, b))"
  by (rule fun_upd_idem) simp

lemma demo_create:
  "create demo_Driver None 2 2 6408 FRAMEWORK_FORMAT_GL_COMPATIBLE True 7 helper demo_gpu =
     (Some (demo_cb helper), demo_gpu\<lparr>gpu_calls := [Gpu_allocImage 2 2], next_name := 2\<rparr>)"
  by (simp add: create_def demo_Driver_def demo_gpu_def demo_cb_def request_def)

lemma demo_created:
  "create demo_Driver None 2 2 6408 FRAMEWORK_FORMAT_GL_COMPATIBLE True 7 (Some 3) demo_gpu
     = (Some (demo_cb (Some 3)), demo_gpu_created)"
  by (simp add: demo_create demo_gpu_created_def)

lemma demo_scale_once:
  "scale demo_Helper demo_Driver (demo_cb (Some 3)) (demo_world False) demo_gpu_created
     = Inr (101, demo_cb_scaled, demo_world_once, demo_gpu_scaled)"
  by (simp add: scale_def scale_body_def ensure_def request_def guard_defs demo_defs
        demo_objs)

lemma demo_scale_twice:
  "scale demo_Helper demo_Driver demo_cb_scaled demo_world_once demo_gpu_scaled
     = Inr (101, demo_cb_scaled, demo_world_twice, demo_gpu_rescaled)"
  by (simp add: scale_def scale_body_def ensure_def request_def guard_defs demo_defs
        demo_objs)

lemma demo_run_once:
  "run_ops demo_Helper demo_Driver [Op_scale] (demo_cb (Some 3)) (demo_world False)
     demo_gpu_created = Inr (demo_cb_scaled, demo_world_once, demo_gpu_scaled)"
  by (simp add: returning_def demo_scale_once)

lemma demo_run_twice:
  "run_ops demo_Helper demo_Driver [Op_scale] demo_cb_scaled demo_world_once demo_gpu_scaled
     = Inr (demo_cb_scaled, demo_world_twice, demo_gpu_rescaled)"
  by (simp add: returning_def demo_scale_twice)

lemma demo_acquires: "acquires demo_Helper (demo_cb (Some 3)) (demo_world False)"
  by (simp add: acquires_iff demo_defs)

lemma demo_subUpdate:
  "subUpdate demo_Helper demo_Driver (demo_cb (Some 3)) 0 0 2 2 6408 5121 [1, 2, 3, 4]
     (demo_world False) demo_gpu_created
     = Inr ((), demo_cb (Some 3), demo_world_once, demo_gpu_uploaded)"
  by (simp add: subUpdate_def subUpdate_body_def in_bounds_def guard_defs demo_defs
        demo_gpu_uploaded_def demo_objs)

section \<open>The claims\<close>

text \<open>
  C1. When \<^verbatim>\<open>isBound()\<close> of the helper returns true at construction, the constructor
  makes that one call and no \<^verbatim>\<open>setupContext()\<close> call, \<^verbatim>\<open>isOk()\<close> is true
  afterwards, and any number of \<^verbatim>\<open>release()\<close> calls and the destructor leave the world
  as it is: they call nothing, so never \<^verbatim>\<open>teardownContext()\<close>.
\<close>

theorem bound_guard_is_passthrough:
  assumes "isBound H (objs w a)"
  shows "\<exists>g w1. RecursiveScopedHelperContext_new H (Some a) w = Inr (g, w1)
           \<and> calls w1 = calls w @ [(a, Call_isBound)]
           \<and> isOk g
           \<and> (\<forall>n. \<exists>g2 g3. release_n H n g w1 = Inr (g2, w1)
                  \<and> RecursiveScopedHelperContext_delete H g2 w1 = Inr (g3, w1))"
proof -
  let ?g = "\<lparr>mHelper = Some a, mNeedUnbind = False\<rparr>"
  let ?w1 = "w\<lparr>calls := calls w @ [(a, Call_isBound)]\<rparr>"
  have "RecursiveScopedHelperContext_new H (Some a) w = Inr (?g, ?w1)"
    using assms by (rule new_bound)
  moreover have "calls ?w1 = calls w @ [(a, Call_isBound)]" by simp
  moreover have "isOk ?g" by (simp add: isOk_def)
  moreover have "\<forall>n. \<exists>g2 g3. release_n H n ?g ?w1 = Inr (g2, ?w1)
                  \<and> RecursiveScopedHelperContext_delete H g2 ?w1 = Inr (g3, ?w1)"
    using release_n_then_delete_idle [of ?g H _ ?w1] by simp
  ultimately show ?thesis by blast
qed

theorem bound_guard_is_passthrough_witness:
  "isBound demo_Helper (objs (demo_world True) 3)
   \<and> (\<exists>g w1. RecursiveScopedHelperContext_new demo_Helper (Some 3) (demo_world True) = Inr (g, w1)
           \<and> calls w1 = calls (demo_world True) @ [(3, Call_isBound)]
           \<and> isOk g
           \<and> (\<forall>n. \<exists>g2 g3. release_n demo_Helper n g w1 = Inr (g2, w1)
                  \<and> RecursiveScopedHelperContext_delete demo_Helper g2 w1 = Inr (g3, w1)))"
proof -
  have h: "isBound demo_Helper (objs (demo_world True) 3)"
    by (simp add: demo_Helper_def demo_world_def)
  show ?thesis
    using h bound_guard_is_passthrough [OF h] by blast
qed

text \<open>
  C2. When \<^verbatim>\<open>isBound()\<close> returns false and \<^verbatim>\<open>setupContext()\<close> returns false, the
  constructed guard is not ok, the constructor has made exactly these two calls, and any
  number of \<^verbatim>\<open>release()\<close> calls and the destructor call nothing: no
  \<^verbatim>\<open>teardownContext()\<close> is made for a setup that failed.
\<close>

theorem failed_setup_owes_no_teardown:
  assumes "\<not> isBound H (objs w a)" and "\<not> fst (setupContext H (objs w a))"
  shows "\<exists>g w1. RecursiveScopedHelperContext_new H (Some a) w = Inr (g, w1)
           \<and> \<not> isOk g
           \<and> calls w1 = calls w @ [(a, Call_isBound), (a, Call_setupContext)]
           \<and> (\<forall>n. \<exists>g2 g3. release_n H n g w1 = Inr (g2, w1)
                  \<and> RecursiveScopedHelperContext_delete H g2 w1 = Inr (g3, w1))"
proof -
  let ?g = "\<lparr>mHelper = None, mNeedUnbind = False\<rparr>"
  let ?w1 = "w\<lparr>objs := (objs w)(a := snd (setupContext H (objs w a))),
                calls := calls w @ [(a, Call_isBound), (a, Call_setupContext)]\<rparr>"
  have "RecursiveScopedHelperContext_new H (Some a) w = Inr (?g, ?w1)"
    using assms by (rule new_setup_failed)
  moreover have "calls ?w1 = calls w @ [(a, Call_isBound), (a, Call_setupContext)]" by simp
  moreover have "\<not> isOk ?g" by (simp add: isOk_def)
  moreover have "\<forall>n. \<exists>g2 g3. release_n H n ?g ?w1 = Inr (g2, ?w1)
                  \<and> RecursiveScopedHelperContext_delete H g2 ?w1 = Inr (g3, ?w1)"
    using release_n_then_delete_idle [of ?g H _ ?w1] by simp
  ultimately show ?thesis by blast
qed

theorem failed_setup_owes_no_teardown_witness:
  "\<not> isBound demo_Helper (objs (demo_world False) 200)
   \<and> \<not> fst (setupContext demo_Helper (objs (demo_world False) 200))
   \<and> (\<exists>g w1. RecursiveScopedHelperContext_new demo_Helper (Some 200) (demo_world False) = Inr (g, w1)
           \<and> \<not> isOk g
           \<and> calls w1 = calls (demo_world False) @ [(200, Call_isBound), (200, Call_setupContext)]
           \<and> (\<forall>n. \<exists>g2 g3. release_n demo_Helper n g w1 = Inr (g2, w1)
                  \<and> RecursiveScopedHelperContext_delete demo_Helper g2 w1 = Inr (g3, w1)))"
proof -
  have h1: "\<not> isBound demo_Helper (objs (demo_world False) 200)"
    by (simp add: demo_Helper_def demo_world_def)
  have h2: "\<not> fst (setupContext demo_Helper (objs (demo_world False) 200))"
    by (simp add: demo_Helper_def demo_world_def)
  show ?thesis
    using h1 h2 failed_setup_owes_no_teardown [OF h1 h2] by blast
qed

text \<open>
  C3. Release is idempotent. Over a whole guard lifetime (construction, any number \<open>n\<close>
  of explicit releases, destruction) \<^verbatim>\<open>teardownContext()\<close> is called once if the
  constructor made a successful \<^verbatim>\<open>setupContext()\<close> call (the context was not bound and
  the setup returned true) and not at all otherwise; and a \<^verbatim>\<open>release()\<close> that follows a
  \<^verbatim>\<open>release()\<close> changes neither the guard nor the world.
\<close>

theorem release_is_idempotent:
  "(\<exists>g' w'. guard_lifetime H (Some a) n w = Inr (g', w')
      \<and> count_call Call_teardownContext (calls_since (length (calls w)) w') =
          (if \<not> isBound H (objs w a) \<and> fst (setupContext H (objs w a)) then 1 else 0))
   \<and> (release H g0 w0 = Inr (g1, w1) \<longrightarrow> release H g1 w1 = Inr (g1, w1))"
proof
  from guard_lifetime_calls [of H a n w] obtain g' w' where
    lt: "guard_lifetime H (Some a) n w = Inr (g', w')"
    and tr: "calls w' = calls w @ (a, Call_isBound) #
         (if isBound H (objs w a) then []
          else (a, Call_setupContext) #
            (if fst (setupContext H (objs w a)) then [(a, Call_teardownContext)] else []))"
    by blast
  have "count_call Call_teardownContext (calls_since (length (calls w)) w') =
          (if \<not> isBound H (objs w a) \<and> fst (setupContext H (objs w a)) then 1 else 0)"
    by (simp add: tr count_call_def calls_since_def)
  with lt show "\<exists>g' w'. guard_lifetime H (Some a) n w = Inr (g', w')
      \<and> count_call Call_teardownContext (calls_since (length (calls w)) w') =
          (if \<not> isBound H (objs w a) \<and> fst (setupContext H (objs w a)) then 1 else 0)"
    by blast
next
  show "release H g0 w0 = Inr (g1, w1) \<longrightarrow> release H g1 w1 = Inr (g1, w1)"
  proof
    assume r: "release H g0 w0 = Inr (g1, w1)"
    have "mNeedUnbind g1 = False" and "mHelper g1 = None"
      using release_after_release [OF r] by simp_all
    then show "release H g1 w1 = Inr (g1, w1)"
      by (simp add: release_idle)
  qed
qed

theorem release_is_idempotent_witness:
  "(\<exists>g' w'. guard_lifetime demo_Helper (Some 3) 2 (demo_world False) = Inr (g', w')
      \<and> count_call Call_teardownContext (calls_since (length (calls (demo_world False))) w') = 1)
   \<and> release demo_Helper \<lparr>mHelper = Some 3, mNeedUnbind = True\<rparr> (demo_world False) =
       Inr (\<lparr>mHelper = None, mNeedUnbind = False\<rparr>,
            \<lparr>objs = (\<lambda>a. (a, False)), calls = [(3, Call_teardownContext)]\<rparr>)
   \<and> release demo_Helper \<lparr>mHelper = None, mNeedUnbind = False\<rparr>
         \<lparr>objs = (\<lambda>a. (a, False)), calls = [(3, Call_teardownContext)]\<rparr> =
       Inr (\<lparr>mHelper = None, mNeedUnbind = False\<rparr>,
            \<lparr>objs = (\<lambda>a. (a, False)), calls = [(3, Call_teardownContext)]\<rparr>)"
proof -
  have h: "release demo_Helper \<lparr>mHelper = Some 3, mNeedUnbind = True\<rparr> (demo_world False) =
       Inr (\<lparr>mHelper = None, mNeedUnbind = False\<rparr>,
            \<lparr>objs = (\<lambda>a. (a, False)), calls = [(3, Call_teardownContext)]\<rparr>)"
    by (auto simp: release_def call_teardownContext_def demo_Helper_def demo_world_def)
  have c: "\<not> isBound demo_Helper (objs (demo_world False) 3)
             \<and> fst (setupContext demo_Helper (objs (demo_world False) 3))"
    by (simp add: demo_Helper_def demo_world_def)
  show ?thesis
    using h c release_is_idempotent
      [of demo_Helper 3 2 "demo_world False"
          "\<lparr>mHelper = Some 3, mNeedUnbind = True\<rparr>" "demo_world False"
          "\<lparr>mHelper = None, mNeedUnbind = False\<rparr>"
          "\<lparr>objs = (\<lambda>a. (a, False)), calls = [(3, Call_teardownContext)]\<rparr>"]
    by simp
qed

text \<open>
  C4 (on the operations as the spec describes them). When the guard acquired at the start
  of a public operation is not ok (the context is not bound and \<^verbatim>\<open>setupContext()\<close>
  fails), the operation returns its failure result, the instance and the state of the
  driver are unchanged (no request reaches the driver), and the only calls made are the
  guard's \<^verbatim>\<open>isBound()\<close> and \<^verbatim>\<open>setupContext()\<close>; in particular
  \<^verbatim>\<open>blitFromCurrentReadBuffer()\<close> returns false.
\<close>

theorem failed_guard_aborts_operation:
  assumes "m_helper cb = Some a" and "\<not> isBound H (objs w a)"
    and "\<not> fst (setupContext H (objs w a))"
  shows "(\<exists>w'. apply_op H D op cb w gpu = Inr (failure_result op, cb, w', gpu)
            \<and> calls w' = calls w @ [(a, Call_isBound), (a, Call_setupContext)])
       \<and> (\<exists>w'. blitFromCurrentReadBuffer H D cb w gpu = Inr (False, cb, w', gpu)
            \<and> calls w' = calls w @ [(a, Call_isBound), (a, Call_setupContext)])"
proof
  show "\<exists>w'. apply_op H D op cb w gpu = Inr (failure_result op, cb, w', gpu)
            \<and> calls w' = calls w @ [(a, Call_isBound), (a, Call_setupContext)]"
    by (cases op)
      (simp_all add: returning_def readPixels_def subUpdate_def draw_def scale_def post_def
         bindToTexture_def bindToRenderbuffer_def blitFromCurrentReadBuffer_def readback_def
         with_context_failed [OF assms])
next
  show "\<exists>w'. blitFromCurrentReadBuffer H D cb w gpu = Inr (False, cb, w', gpu)
            \<and> calls w' = calls w @ [(a, Call_isBound), (a, Call_setupContext)]"
    by (simp add: blitFromCurrentReadBuffer_def with_context_failed [OF assms])
qed

theorem failed_guard_aborts_operation_witness:
  "m_helper (demo_cb (Some 200)) = Some 200
   \<and> \<not> isBound demo_Helper (objs (demo_world False) 200)
   \<and> \<not> fst (setupContext demo_Helper (objs (demo_world False) 200))
   \<and> (\<exists>w'. apply_op demo_Helper demo_Driver Op_scale (demo_cb (Some 200)) (demo_world False)
               demo_gpu = Inr (R_GLuint 0, demo_cb (Some 200), w', demo_gpu)
          \<and> calls w' = calls (demo_world False) @ [(200, Call_isBound), (200, Call_setupContext)])
   \<and> (\<exists>w'. blitFromCurrentReadBuffer demo_Helper demo_Driver (demo_cb (Some 200))
               (demo_world False) demo_gpu = Inr (False, demo_cb (Some 200), w', demo_gpu)
          \<and> calls w' = calls (demo_world False) @ [(200, Call_isBound), (200, Call_setupContext)])"
proof -
  have h1: "m_helper (demo_cb (Some 200)) = Some 200"
    by (simp add: demo_cb_def)
  have h2: "\<not> isBound demo_Helper (objs (demo_world False) 200)"
    by (simp add: demo_Helper_def demo_world_def)
  have h3: "\<not> fst (setupContext demo_Helper (objs (demo_world False) 200))"
    by (simp add: demo_Helper_def demo_world_def)
  show ?thesis
    using h1 h2 h3
      failed_guard_aborts_operation [OF h1 h2 h3, of demo_Driver Op_scale demo_gpu]
    by simp
qed

text \<open>
  C5 (on the factory as the spec describes it). \<^verbatim>\<open>create\<close> produces no instance, and
  asks nothing of the driver, when a dimension is not positive; it produces no instance
  when the driver fails to allocate the image; in particular it produces none for
  \<open>width = 0\<close>. With positive dimensions and a successful allocation it produces an
  instance of these dimensions.
\<close>

theorem create_fails_without_instance:
  "(p_width \<le> 0 \<or> p_height \<le> 0 \<longrightarrow>
      create D p_display p_width p_height p_internalFormat p_frameworkFormat tex2d hndl helper gpu
        = (None, gpu))
   \<and> (\<not> driver_ok D (Gpu_allocImage (nat p_width) (nat p_height)) \<longrightarrow>
        fst (create D p_display p_width p_height p_internalFormat p_frameworkFormat tex2d hndl
               helper gpu) = None)
   \<and> create D p_display 0 p_height p_internalFormat p_frameworkFormat tex2d hndl helper gpu
        = (None, gpu)
   \<and> (0 < p_width \<and> 0 < p_height \<and> driver_ok D (Gpu_allocImage (nat p_width) (nat p_height)) \<longrightarrow>
        (\<exists>cb gpu'. create D p_display p_width p_height p_internalFormat p_frameworkFormat tex2d
                      hndl helper gpu = (Some cb, gpu')
           \<and> int (getWidth cb) = p_width \<and> int (getHeight cb) = p_height))"
  by (simp add: create_def Let_def getWidth_def getHeight_def)

theorem create_fails_without_instance_witness:
  "create demo_Driver None 0 2 6408 FRAMEWORK_FORMAT_GL_COMPATIBLE True 7 (Some 3) demo_gpu
     = (None, demo_gpu)
   \<and> \<not> driver_ok failing_Driver (Gpu_allocImage (nat 2) (nat 2))
   \<and> fst (create failing_Driver None 2 2 6408 FRAMEWORK_FORMAT_GL_COMPATIBLE True 7 (Some 3)
            demo_gpu) = None
   \<and> driver_ok demo_Driver (Gpu_allocImage (nat 2) (nat 2))
   \<and> (\<exists>cb gpu'. create demo_Driver None 2 2 6408 FRAMEWORK_FORMAT_GL_COMPATIBLE True 7 (Some 3)
                    demo_gpu = (Some cb, gpu')
          \<and> int (getWidth cb) = 2 \<and> int (getHeight cb) = 2)"
proof -
  have h1: "\<not> driver_ok failing_Driver (Gpu_allocImage (nat 2) (nat 2))"
    by (simp add: failing_Driver_def)
  have h2: "driver_ok demo_Driver (Gpu_allocImage (nat 2) (nat 2))"
    by (simp add: demo_Driver_def)
  show ?thesis
    using h1 h2
      create_fails_without_instance
        [of 0 2 demo_Driver None 6408 FRAMEWORK_FORMAT_GL_COMPATIBLE True 7 "Some 3" demo_gpu]
      create_fails_without_instance
        [of 2 2 failing_Driver None 6408 FRAMEWORK_FORMAT_GL_COMPATIBLE True 7 "Some 3" demo_gpu]
      create_fails_without_instance
        [of 2 2 demo_Driver None 6408 FRAMEWORK_FORMAT_GL_COMPATIBLE True 7 "Some 3" demo_gpu]
    by simp
qed

text \<open>
  C6 (on the operations as the spec describes them). For a rectangle inside the bounds
  and a format/type pair in the identity-format case, \<^verbatim>\<open>subUpdate\<close> of the
  \<open>width * height\<close> pixels of the rectangle, when it executes, returns, and a following
  \<^verbatim>\<open>readPixels\<close> over the same rectangle with the same format and type, when it
  executes, returns exactly the uploaded pixels.
\<close>

theorem subUpdate_readPixels_round_trip:
  fixes H :: "'h Helper"
  assumes "in_bounds cb x y width height"
    and "length pixels = nat width * nat height"
    and "identity_format D cb p_format p_type pixels"
    and "acquires H cb w"
  shows "\<exists>cb1 w1 gpu1.
           subUpdate H D cb x y width height p_format p_type pixels w gpu = Inr ((), cb1, w1, gpu1)
         \<and> (\<forall>out. length out = nat width * nat height \<and> acquires H cb1 w1 \<longrightarrow>
               (\<exists>cb2 w2 gpu2.
                  readPixels H D cb1 x y width height p_format p_type out w1 gpu1
                    = Inr (pixels, cb2, w2, gpu2)))"
proof -
  from subUpdate_body_identity [OF assms(1-3), of gpu] obtain cb1 gpuP where
    keep: "retains cb cb1"
    and body1: "\<forall>w1 :: 'h world.
                 subUpdate_body D x y width height p_format p_type pixels cb w1 gpu
                 = Inr ((), cb1, w1,
                        upload (m_tex cb1) (nat x) (nat y) (nat width) (nat height) pixels gpuP)"
    by blast
  let ?gpu1 = "upload (m_tex cb1) (nat x) (nat y) (nat width) (nat height) pixels gpuP"
  from with_context_runs
    [where body = "subUpdate_body D x y width height p_format p_type pixels", OF assms(4) body1]
  obtain w1 where
    s: "subUpdate H D cb x y width height p_format p_type pixels w gpu = Inr ((), cb1, w1, ?gpu1)"
    by (auto simp: subUpdate_def)
  have "\<exists>cb2 w2 gpu2.
          readPixels H D cb1 x y width height p_format p_type out w1 ?gpu1
            = Inr (pixels, cb2, w2, gpu2)"
    if len: "length out = nat width * nat height" and acq: "acquires H cb1 w1" for out
  proof -
    have bounds: "in_bounds cb1 x y width height"
      using assms(1) keep by (simp add: in_bounds_def retains_def)
    have texels: "map (tex_pixels ?gpu1 (m_tex cb1))
                    (rect_coords (nat x) (nat y) (nat width) (nat height)) = pixels"
      using upload_then_read [OF assms(2)] by simp
    have conv: "(if (p_format, p_type) = internal_repr D (m_internalFormat cb1) then pixels
                 else map (convert D (internal_repr D (m_internalFormat cb1)) (p_format, p_type))
                        pixels) = pixels"
      using identity_format_retains [OF keep assms(3)] .
    have body2: "\<forall>w2 :: 'h world.
                   readPixels_body D x y width height p_format p_type out cb1 w2 ?gpu1
                   = Inr (pixels, cb1, w2, request (Gpu_work K_readPixels) ?gpu1)"
      using bounds len assms(2) conv
      by (simp add: readPixels_body_def Let_def texels)
    from with_context_runs
      [where body = "readPixels_body D x y width height p_format p_type out"
         and failure = out, OF acq body2]
    show ?thesis
      unfolding readPixels_def by blast
  qed
  with s show ?thesis by blast
qed

theorem subUpdate_readPixels_round_trip_witness:
  "in_bounds (demo_cb (Some 3)) 0 0 2 2
   \<and> length [1, 2, 3, 4 :: nat] = nat 2 * nat 2
   \<and> identity_format demo_Driver (demo_cb (Some 3)) 6408 5121 [1, 2, 3, 4]
   \<and> acquires demo_Helper (demo_cb (Some 3)) (demo_world False)
   \<and> subUpdate demo_Helper demo_Driver (demo_cb (Some 3)) 0 0 2 2 6408 5121 [1, 2, 3, 4]
        (demo_world False) demo_gpu_created
        = Inr ((), demo_cb (Some 3), demo_world_once, demo_gpu_uploaded)
   \<and> length [0, 0, 0, 0 :: nat] = nat 2 * nat 2
   \<and> acquires demo_Helper (demo_cb (Some 3)) demo_world_once
   \<and> (\<exists>cb2 w2 gpu2.
         readPixels demo_Helper demo_Driver (demo_cb (Some 3)) 0 0 2 2 6408 5121 [0, 0, 0, 0]
           demo_world_once demo_gpu_uploaded = Inr ([1, 2, 3, 4], cb2, w2, gpu2))"
proof -
  have h1: "in_bounds (demo_cb (Some 3)) 0 0 2 2"
    by (simp add: in_bounds_def demo_cb_def)
  have h2: "length [1, 2, 3, 4 :: nat] = nat 2 * nat 2"
    by simp
  have h3: "identity_format demo_Driver (demo_cb (Some 3)) 6408 5121 [1, 2, 3, 4]"
    by (rule identity_format_internal) (simp_all add: demo_cb_def demo_Driver_def)
  have h6: "length [0, 0, 0, 0 :: nat] = nat 2 * nat 2"
    by simp
  have h7: "acquires demo_Helper (demo_cb (Some 3)) demo_world_once"
    by (simp add: acquires_iff demo_defs)
  from subUpdate_readPixels_round_trip [OF h1 h2 h3 demo_acquires, of demo_gpu_created]
  have "\<exists>cb2 w2 gpu2.
         readPixels demo_Helper demo_Driver (demo_cb (Some 3)) 0 0 2 2 6408 5121 [0, 0, 0, 0]
           demo_world_once demo_gpu_uploaded = Inr ([1, 2, 3, 4], cb2, w2, gpu2)"
    using demo_subUpdate h6 h7 by auto
  then show ?thesis
    using h1 h2 h3 h6 h7 demo_acquires demo_subUpdate by blast
qed

text \<open>
  C7 (on the operations as the spec describes them). For each of the blit image, the YUV
  conversion target and the resizer: it is absent in a created instance; after any
  sequence of operations it exists if and only if some operation of the sequence that
  needed it has executed, and the driver has been asked to create it once if it exists
  and never otherwise; once it exists, any further sequence of operations leaves it in
  place, the same object, and creates it no more. So of two consecutive executed
  \<^verbatim>\<open>scale()\<close> calls on a created instance the first creates the resizer and the
  second reuses it.
\<close>

theorem lazy_members_created_on_first_use:
  assumes "create D p_display p_width p_height p_internalFormat p_frameworkFormat tex2d hndl
             helper gpu0 = (Some cb, gpu)"
    and "run_ops H D ops cb w gpu = Inr (cb1, w1, gpu1)"
    and "run_ops H D ops' cb1 w1 gpu1 = Inr (cb2, w2, gpu2)"
  shows "\<not> present res cb
       \<and> present res cb1 = needed_during H D res ops cb w gpu
       \<and> creations res gpu1 = creations res gpu + (if present res cb1 then 1 else 0)
       \<and> (present res cb1 \<longrightarrow>
            present res cb2 \<and> retains cb1 cb2 \<and> creations res gpu2 = creations res gpu1)
       \<and> (acquires H cb w \<and> scale H D cb w gpu = Inr (t1, cbA, wA, gpuA)
            \<and> scale H D cbA wA gpuA = Inr (t2, cbB, wB, gpuB) \<longrightarrow>
              creations Resizer gpuA = creations Resizer gpu + 1
              \<and> creations Resizer gpuB = creations Resizer gpuA
              \<and> m_resizer cbA \<noteq> None \<and> m_resizer cbB = m_resizer cbA)"
proof -
  have fresh: "\<And>r. \<not> present r cb"
    using create_fresh(1) [OF assms(1)] by blast
  have a: "present res cb1 = needed_during H D res ops cb w gpu"
    using run_ops_step [OF assms(2), of res] fresh by simp
  have b: "creations res gpu1 = creations res gpu + (if present res cb1 then 1 else 0)"
    using run_ops_created_once [OF assms(2), of res] fresh by (simp add: created_once_def)
  have c: "present res cb1 \<longrightarrow>
            present res cb2 \<and> retains cb1 cb2 \<and> creations res gpu2 = creations res gpu1"
    using run_ops_step [OF assms(3), of res] run_ops_created_once [OF assms(3), of res]
    by (simp add: created_once_def)
  have d: "creations Resizer gpuA = creations Resizer gpu + 1
              \<and> creations Resizer gpuB = creations Resizer gpuA
              \<and> m_resizer cbA \<noteq> None \<and> m_resizer cbB = m_resizer cbA"
    if acq: "acquires H cb w" and s1: "scale H D cb w gpu = Inr (t1, cbA, wA, gpuA)"
      and s2: "scale H D cbA wA gpuA = Inr (t2, cbB, wB, gpuB)"
  proof -
    have o1: "apply_op H D Op_scale cb w gpu = Inr (R_GLuint t1, cbA, wA, gpuA)"
      using s1 by (simp add: returning_def)
    have o2: "apply_op H D Op_scale cbA wA gpuA = Inr (R_GLuint t2, cbB, wB, gpuB)"
      using s2 by (simp add: returning_def)
    have pA: "present Resizer cbA"
      using apply_op_step [OF o1, of Resizer] acq by simp
    have "creations Resizer gpuA = creations Resizer gpu + 1"
      using apply_op_created_once [OF o1, of Resizer] pA fresh by (simp add: created_once_def)
    moreover have "creations Resizer gpuB = creations Resizer gpuA"
      using apply_op_created_once [OF o2, of Resizer] pA by (simp add: created_once_def)
    moreover have "m_resizer cbB = m_resizer cbA"
      using apply_op_step [OF o2, of Resizer] pA by (simp add: retains_def)
    ultimately show ?thesis using pA by simp
  qed
  show ?thesis
    using fresh a b c d by blast
qed

theorem lazy_members_created_on_first_use_witness:
  "create demo_Driver None 2 2 6408 FRAMEWORK_FORMAT_GL_COMPATIBLE True 7 (Some 3) demo_gpu
     = (Some (demo_cb (Some 3)), demo_gpu_created)
   \<and> run_ops demo_Helper demo_Driver [Op_scale] (demo_cb (Some 3)) (demo_world False)
       demo_gpu_created = Inr (demo_cb_scaled, demo_world_once, demo_gpu_scaled)
   \<and> run_ops demo_Helper demo_Driver [Op_scale] demo_cb_scaled demo_world_once demo_gpu_scaled
       = Inr (demo_cb_scaled, demo_world_twice, demo_gpu_rescaled)
   \<and> acquires demo_Helper (demo_cb (Some 3)) (demo_world False)
   \<and> scale demo_Helper demo_Driver (demo_cb (Some 3)) (demo_world False) demo_gpu_created
       = Inr (101, demo_cb_scaled, demo_world_once, demo_gpu_scaled)
   \<and> scale demo_Helper demo_Driver demo_cb_scaled demo_world_once demo_gpu_scaled
       = Inr (101, demo_cb_scaled, demo_world_twice, demo_gpu_rescaled)
   \<and> \<not> present Resizer (demo_cb (Some 3))
   \<and> present Resizer demo_cb_scaled
   \<and> needed_during demo_Helper demo_Driver Resizer [Op_scale] (demo_cb (Some 3))
        (demo_world False) demo_gpu_created
   \<and> creations Resizer demo_gpu_created = 0
   \<and> creations Resizer demo_gpu_scaled = 1
   \<and> creations Resizer demo_gpu_rescaled = 1
   \<and> retains demo_cb_scaled demo_cb_scaled
   \<and> m_resizer demo_cb_scaled \<noteq> None"
proof -
  note t = lazy_members_created_on_first_use [OF demo_created demo_run_once demo_run_twice,
        of Resizer 101 demo_cb_scaled demo_world_once demo_gpu_scaled
           101 demo_cb_scaled demo_world_twice demo_gpu_rescaled]
  have p: "present Resizer demo_cb_scaled"
    by (simp add: demo_cb_scaled_def)
  have n: "needed_during demo_Helper demo_Driver Resizer [Op_scale] (demo_cb (Some 3))
             (demo_world False) demo_gpu_created"
    using t p by blast
  have f: "\<not> present Resizer (demo_cb (Some 3))"
    using t by blast
  have r: "retains demo_cb_scaled demo_cb_scaled"
    using t p by blast
  have c0: "creations Resizer demo_gpu_created = 0"
    by (simp add: creations_def demo_gpu_created_def demo_gpu_def)
  have c1: "creations Resizer demo_gpu_scaled = 1"
    using t p c0 by presburger
  have c2: "creations Resizer demo_gpu_rescaled = 1"
    using t p c1 by presburger
  have m: "m_resizer demo_cb_scaled \<noteq> None"
    using p by simp
  show ?thesis
    using p n f r c0 c1 c2 m demo_created demo_run_once demo_run_twice demo_acquires
      demo_scale_once demo_scale_twice
    by blast
qed

text \<open>
  C8 (on the operations as the spec describes them). After any sequence of public
  operations on a created instance, \<^verbatim>\<open>getWidth()\<close> and \<^verbatim>\<open>getHeight()\<close> report the
  dimensions given at creation, those the instance reported when created.
\<close>

theorem dimensions_never_change:
  assumes "create D p_display p_width p_height p_internalFormat p_frameworkFormat tex2d hndl
             helper gpu0 = (Some cb, gpu)"
    and "run_ops H D ops cb w gpu = Inr (cb', w', gpu')"
  shows "int (getWidth cb') = p_width \<and> int (getHeight cb') = p_height
       \<and> getWidth cb' = getWidth cb \<and> getHeight cb' = getHeight cb"
proof -
  have "retains cb cb'"
    using run_ops_step [OF assms(2)] by blast
  then have "m_width cb' = m_width cb" and "m_height cb' = m_height cb"
    by (simp_all add: retains_def)
  then show ?thesis
    using create_fresh(2,3) [OF assms(1)] by (simp add: getWidth_def getHeight_def)
qed

theorem dimensions_never_change_witness:
  "create demo_Driver None 2 2 6408 FRAMEWORK_FORMAT_GL_COMPATIBLE True 7 (Some 3) demo_gpu
     = (Some (demo_cb (Some 3)), demo_gpu_created)
   \<and> run_ops demo_Helper demo_Driver [Op_scale] (demo_cb (Some 3)) (demo_world False)
       demo_gpu_created = Inr (demo_cb_scaled, demo_world_once, demo_gpu_scaled)
   \<and> int (getWidth demo_cb_scaled) = 2 \<and> int (getHeight demo_cb_scaled) = 2
   \<and> getWidth demo_cb_scaled = getWidth (demo_cb (Some 3))
   \<and> getHeight demo_cb_scaled = getHeight (demo_cb (Some 3))"
  using demo_created demo_run_once dimensions_never_change [OF demo_created demo_run_once]
  by blast

text \<open>
  C9. After any call of \<^verbatim>\<open>release()\<close>, \<^verbatim>\<open>isOk()\<close> is false: for any guard state on
  which the call returns, and, for every guard built by the constructor from a non-null
  helper, after each of one or more releases (which all return).
\<close>

theorem isOk_false_after_release:
  "(release H g0 w0 = Inr (g', w') \<longrightarrow> \<not> isOk g')
   \<and> (RecursiveScopedHelperContext_new H (Some a) w = Inr (g, w1) \<longrightarrow>
        (\<exists>g2 w2. release_n H (Suc n) g w1 = Inr (g2, w2) \<and> \<not> isOk g2))"
proof
  show "release H g0 w0 = Inr (g', w') \<longrightarrow> \<not> isOk g'"
    using release_after_release(1) [of H g0 w0 g' w'] by (simp add: isOk_def)
next
  show "RecursiveScopedHelperContext_new H (Some a) w = Inr (g, w1) \<longrightarrow>
        (\<exists>g2 w2. release_n H (Suc n) g w1 = Inr (g2, w2) \<and> \<not> isOk g2)"
  proof
    assume c: "RecursiveScopedHelperContext_new H (Some a) w = Inr (g, w1)"
    have "mNeedUnbind g \<longrightarrow> mHelper g \<noteq> None"
      using new_cases [OF c] by auto
    from release_n_Suc_clears [OF this, of H n w1]
    show "\<exists>g2 w2. release_n H (Suc n) g w1 = Inr (g2, w2) \<and> \<not> isOk g2"
      by (auto simp: isOk_def)
  qed
qed

theorem isOk_false_after_release_witness:
  "release demo_Helper \<lparr>mHelper = Some 3, mNeedUnbind = True\<rparr> (demo_world False) =
       Inr (\<lparr>mHelper = None, mNeedUnbind = False\<rparr>,
            \<lparr>objs = (\<lambda>a. (a, False)), calls = [(3, Call_teardownContext)]\<rparr>)
   \<and> \<not> isOk \<lparr>mHelper = None, mNeedUnbind = False\<rparr>
   \<and> RecursiveScopedHelperContext_new demo_Helper (Some 3) (demo_world True) =
       Inr (\<lparr>mHelper = Some 3, mNeedUnbind = False\<rparr>,
            \<lparr>objs = (\<lambda>a. (a, True)), calls = [(3, Call_isBound)]\<rparr>)
   \<and> isOk \<lparr>mHelper = Some 3, mNeedUnbind = False\<rparr>
   \<and> (\<exists>g2 w2. release_n demo_Helper (Suc 0) \<lparr>mHelper = Some 3, mNeedUnbind = False\<rparr>
         \<lparr>objs = (\<lambda>a. (a, True)), calls = [(3, Call_isBound)]\<rparr> = Inr (g2, w2) \<and> \<not> isOk g2)"
proof -
  have h1: "release demo_Helper \<lparr>mHelper = Some 3, mNeedUnbind = True\<rparr> (demo_world False) =
       Inr (\<lparr>mHelper = None, mNeedUnbind = False\<rparr>,
            \<lparr>objs = (\<lambda>a. (a, False)), calls = [(3, Call_teardownContext)]\<rparr>)"
    by (auto simp: release_def call_teardownContext_def demo_Helper_def demo_world_def)
  have h2: "RecursiveScopedHelperContext_new demo_Helper (Some 3) (demo_world True) =
       Inr (\<lparr>mHelper = Some 3, mNeedUnbind = False\<rparr>,
            \<lparr>objs = (\<lambda>a. (a, True)), calls = [(3, Call_isBound)]\<rparr>)"
    by (simp add: RecursiveScopedHelperContext_new_def call_isBound_def
          demo_Helper_def demo_world_def)
  have h3: "isOk \<lparr>mHelper = Some 3, mNeedUnbind = False\<rparr>"
    by (simp add: isOk_def)
  show ?thesis
    using h1 h2 h3 isOk_false_after_release
      [of demo_Helper "\<lparr>mHelper = Some 3, mNeedUnbind = True\<rparr>" "demo_world False"
          "\<lparr>mHelper = None, mNeedUnbind = False\<rparr>"
          "\<lparr>objs = (\<lambda>a. (a, False)), calls = [(3, Call_teardownContext)]\<rparr>"
          3 "demo_world True" "\<lparr>mHelper = Some 3, mNeedUnbind = False\<rparr>"
          "\<lparr>objs = (\<lambda>a. (a, True)), calls = [(3, Call_isBound)]\<rparr>" 0]
    by blast
qed

text \<open>
  C10. The constructor dereferences its argument: with a null helper it fails. With a
  non-null helper, construction, any number of releases and the destructor never
  dereference a null pointer; and \<^verbatim>\<open>release()\<close> touches the helper only when a teardown
  is owed.
\<close>

theorem guard_never_dereferences_null:
  "RecursiveScopedHelperContext_new H None w = Inl NullDeref
   \<and> (\<forall>n. \<exists>g' w'. guard_lifetime H (Some a) n w = Inr (g', w'))
   \<and> (\<not> mNeedUnbind g \<longrightarrow> release H g w0 = Inr (g\<lparr>mHelper := None\<rparr>, w0))"
proof -
  have "\<forall>n. \<exists>g' w'. guard_lifetime H (Some a) n w = Inr (g', w')"
    using guard_lifetime_calls [of H a _ w] by blast
  moreover have "\<not> mNeedUnbind g \<longrightarrow> release H g w0 = Inr (g\<lparr>mHelper := None\<rparr>, w0)"
    by (simp add: release_idle)
  ultimately show ?thesis
    by (simp add: new_null)
qed

theorem guard_never_dereferences_null_witness:
  "RecursiveScopedHelperContext_new demo_Helper None (demo_world False) = Inl NullDeref
   \<and> (\<forall>n. \<exists>g' w'. guard_lifetime demo_Helper (Some 3) n (demo_world False) = Inr (g', w'))
   \<and> \<not> mNeedUnbind \<lparr>mHelper = None, mNeedUnbind = False\<rparr>
   \<and> release demo_Helper \<lparr>mHelper = None, mNeedUnbind = False\<rparr> (demo_world True) =
       Inr (\<lparr>mHelper = None, mNeedUnbind = False\<rparr>, demo_world True)"
  using guard_never_dereferences_null
    [of demo_Helper "demo_world False" 3 "\<lparr>mHelper = None, mNeedUnbind = False\<rparr>"
        "demo_world True"]
  by simp

end
